theory Spec2Isabelle
  imports Complex_Main
begin

section \<open>Kill switch (kill-switch.ts)\<close>

text \<open>
  The class \<open>KillSwitch\<close> keeps a resolved configuration and four mutable fields.
  The model is a record holding both; every method takes the record and returns the
  updated one.  Timestamps (\<open>new Date().toISOString()\<close>) are passed in as the string
  the clock returned.  The file system is the predicate \<open>exists\<close> on joined paths
  (\<open>fs.existsSync\<close>).
\<close>

record KillSwitch =
  ks_enabled :: bool
  ks_checkFile :: bool
  ks_killFileNames :: "string list"
  ks_checkDirs :: "string list"
  manuallyActive :: bool
  fileActive :: bool
  activeReason :: string
  activatedAt :: "string option"

definition isActive :: "KillSwitch \<Rightarrow> bool" where
  "isActive ks = (if \<not> ks_enabled ks then False else manuallyActive ks \<or> fileActive ks)"

definition activate :: "string \<Rightarrow> string \<Rightarrow> KillSwitch \<Rightarrow> KillSwitch" where
  "activate reason now ks =
     ks\<lparr>manuallyActive := True, activeReason := reason, activatedAt := Some now\<rparr>"

definition deactivate :: "KillSwitch \<Rightarrow> KillSwitch" where
  "deactivate ks =
     (let ks1 = ks\<lparr>manuallyActive := False\<rparr>
      in if \<not> fileActive ks1 then ks1\<lparr>activeReason := [], activatedAt := None\<rparr> else ks1)"

text \<open>\<open>path.join(dir, fileName)\<close> for the two nested loops of \<open>checkKillFiles\<close>, in
  iteration order (directories outside, file names inside).\<close>

definition path_join :: "string \<Rightarrow> string \<Rightarrow> string" where
  "path_join dir fileName = dir @ ''/'' @ fileName"

definition killFilePaths :: "KillSwitch \<Rightarrow> string list" where
  "killFilePaths ks =
     concat (map (\<lambda>dir. map (\<lambda>fileName. path_join dir fileName) (ks_killFileNames ks))
                 (ks_checkDirs ks))"

definition checkKillFiles :: "(string \<Rightarrow> bool) \<Rightarrow> string \<Rightarrow> KillSwitch \<Rightarrow> KillSwitch" where
  "checkKillFiles exists now ks =
     (case find exists (killFilePaths ks) of
        Some filePath \<Rightarrow>
          (if \<not> fileActive ks
           then ks\<lparr>fileActive := True,
                   activeReason := ''Kill file detected: '' @ filePath,
                   activatedAt := Some now\<rparr>
           else ks)
      | None \<Rightarrow>
          (if fileActive ks
           then (let ks1 = ks\<lparr>fileActive := False\<rparr>
                 in if \<not> manuallyActive ks1
                    then ks1\<lparr>activeReason := [], activatedAt := None\<rparr> else ks1)
           else ks))"

text \<open>The constructor with \<open>enabled: false\<close> and all other options at a fixed value;
  a disabled switch starts no polling.\<close>

definition disabledSwitch :: KillSwitch where
  "disabledSwitch =
     \<lparr>ks_enabled = False, ks_checkFile = True, ks_killFileNames = [''.agent-wall-kill''],
      ks_checkDirs = [''/work'', ''/home/user''], manuallyActive = False, fileActive = False,
      activeReason = [], activatedAt = None\<rparr>"

definition enabledSwitch :: KillSwitch where
  "enabledSwitch = disabledSwitch\<lparr>ks_enabled := True\<rparr>"

subsection \<open>Claim C9\<close>

text \<open>
  C9 as stated: \<open>isActive()\<close> returns the OR of the programmatic flag and the file flag.
  On a switch constructed with \<open>enabled: false\<close>, \<open>activate()\<close> sets the programmatic
  flag and \<open>isActive()\<close> still answers false (the guard at the top of \<open>isActive\<close>; the
  test "should never be active when disabled" expects exactly this).
\<close>

theorem C9_isActive_or_counterexample:
  "isActive (activate ''Manually activated'' ''2026-01-01T00:00:00Z'' disabledSwitch)
     \<noteq> (manuallyActive (activate ''Manually activated'' ''2026-01-01T00:00:00Z'' disabledSwitch)
        \<or> fileActive (activate ''Manually activated'' ''2026-01-01T00:00:00Z'' disabledSwitch))"
  by (simp add: isActive_def activate_def disabledSwitch_def)

text \<open>
  C9 amended: \<open>isActive()\<close> is the OR of the two flags on an enabled switch and false on a
  disabled one; a poll that finds no kill file clears the file flag and leaves the
  programmatic flag as it was; \<open>deactivate()\<close> clears the programmatic flag and leaves
  the file flag as it was.
\<close>

theorem C9_kill_switch_flags:
  "isActive ks = (ks_enabled ks \<and> (manuallyActive ks \<or> fileActive ks))
   \<and> ((\<forall>p \<in> set (killFilePaths ks). \<not> exists p) \<longrightarrow>
        fileActive (checkKillFiles exists now ks) = False
        \<and> manuallyActive (checkKillFiles exists now ks) = manuallyActive ks)
   \<and> manuallyActive (deactivate ks) = False
   \<and> fileActive (deactivate ks) = fileActive ks"
proof -
  have a: "isActive ks = (ks_enabled ks \<and> (manuallyActive ks \<or> fileActive ks))"
    by (simp add: isActive_def)
  have b: "fileActive (checkKillFiles exists now ks) = False
           \<and> manuallyActive (checkKillFiles exists now ks) = manuallyActive ks"
    if none: "\<forall>p \<in> set (killFilePaths ks). \<not> exists p"
  proof -
    from none have "find exists (killFilePaths ks) = None"
      by (simp add: find_None_iff)
    then show ?thesis
      by (simp add: checkKillFiles_def Let_def)
  qed
  have c: "manuallyActive (deactivate ks) = False \<and> fileActive (deactivate ks) = fileActive ks"
    by (simp add: deactivate_def Let_def)
  from a b c show ?thesis by blast
qed

theorem C9_kill_switch_flags_witness:
  "isActive (activate ''r'' ''t'' (enabledSwitch\<lparr>fileActive := True\<rparr>))
   \<and> fileActive (checkKillFiles (\<lambda>_. False) ''t2''
        (activate ''r'' ''t'' (enabledSwitch\<lparr>fileActive := True\<rparr>))) = False
   \<and> manuallyActive (checkKillFiles (\<lambda>_. False) ''t2''
        (activate ''r'' ''t'' (enabledSwitch\<lparr>fileActive := True\<rparr>)))
   \<and> fileActive (deactivate (activate ''r'' ''t'' (enabledSwitch\<lparr>fileActive := True\<rparr>)))"
  using C9_kill_switch_flags
          [of "activate ''r'' ''t'' (enabledSwitch\<lparr>fileActive := True\<rparr>)" "\<lambda>_. False" "''t2''"]
  by (simp add: activate_def enabledSwitch_def disabledSwitch_def)

section \<open>JSON values and string helpers\<close>

text \<open>
  Dynamically typed values (tool arguments, JSON-RPC ids, results) are JSON values.  An
  object is an association list in insertion order, as \<open>Object.entries\<close> enumerates it.
  JavaScript strings are modelled as Isabelle strings; \<open>toLowerCase\<close> is the ASCII
  case mapping.
\<close>

datatype json =
    JNull
  | JBool bool
  | JNum int
  | JStr string
  | JArr "json list"
  | JObj "(string \<times> json) list"

definition toLowerChar :: "char \<Rightarrow> char" where
  "toLowerChar c =
     (let n = (of_char c :: nat) in if 65 \<le> n \<and> n \<le> 90 then char_of (n + 32) else c)"

definition toLowerCase :: "string \<Rightarrow> string" where
  "toLowerCase s = map toLowerChar s"

definition startsWith :: "string \<Rightarrow> string \<Rightarrow> bool" where
  "startsWith s p = (take (length p) s = p)"

fun str_includes :: "string \<Rightarrow> string \<Rightarrow> bool" where
  "str_includes [] t = (t = [])"
| "str_includes (c # cs) t = (startsWith (c # cs) t \<or> str_includes cs t)"

section \<open>Audit logger (audit-logger.ts)\<close>

datatype RuleAction = Allow | Deny | Prompt

datatype Direction = Request | Response

record PolicyVerdict =
  v_action :: RuleAction
  v_rule :: "string option"
  v_message :: string

record AuditEntry =
  timestamp :: string
  sessionId :: string
  direction :: Direction
  ae_method :: string
  tool :: "string option"
  arguments :: "(string \<times> json) list option"
  verdict :: "PolicyVerdict option"
  responsePreview :: "string option"
  latencyMs :: "int option"
  error :: "string option"

text \<open>
  A persisted line, as \<open>JSON.parse\<close> returns it in \<open>verifyChain\<close>: the base fields plus
  the optional \<open>_sig\<close> and \<open>_seq\<close>.  The destructuring
  \<open>const { _sig, _seq, ...entry } = parsed\<close> is the three projections.
\<close>

record SignedAuditEntry =
  entry :: AuditEntry
  sig :: "string option"
  seq :: "nat option"

text \<open>
  \<open>node:crypto\<close> and \<open>JSON.stringify\<close> belong to the runtime, not to the repository:
  \<open>hmac key payload\<close> stands for
  \<open>crypto.createHmac("sha256", key).update(payload).digest("hex")\<close> and \<open>stringify\<close> for
  \<open>JSON.stringify\<close> on an entry without the signing fields.  Both are parameters of the
  model.
\<close>

record crypto_runtime =
  hmac :: "string \<Rightarrow> string \<Rightarrow> string"
  stringify :: "AuditEntry \<Rightarrow> string"

record AuditLogger =
  opt_redact :: bool
  opt_maxArgLength :: nat
  opt_signing :: bool
  opt_signingKey :: string
  entries :: "AuditEntry list"
  prevHash :: string
  seqCounter :: nat
  logFile :: "SignedAuditEntry list"

text \<open>\<open>SENSITIVE_PATTERNS.some((p) => p.test(key))\<close>: the eight case-insensitive
  patterns, \<open>[_-]?\<close> written out as its three alternatives.\<close>

definition isSensitiveKey :: "string \<Rightarrow> bool" where
  "isSensitiveKey key =
     (let k = toLowerCase key
      in list_ex (str_includes k)
           [''password'', ''secret'', ''token'',
            ''apikey'', ''api_key'', ''api-key'',
            ''auth'', ''credential'',
            ''privatekey'', ''private_key'', ''private-key'',
            ''accesskey'', ''access_key'', ''access-key''])"

definition redactArg :: "nat \<Rightarrow> string \<times> json \<Rightarrow> string \<times> json" where
  "redactArg maxArgLength kv =
     (case kv of (key, val) \<Rightarrow>
        if isSensitiveKey key then (key, JStr ''[REDACTED]'')
        else (case val of
                JStr s \<Rightarrow>
                  if length s > maxArgLength
                  then (key, JStr (take maxArgLength s @ ''...[truncated]''))
                  else (key, val)
              | _ \<Rightarrow> (key, val)))"

definition redactEntry :: "AuditLogger \<Rightarrow> AuditEntry \<Rightarrow> AuditEntry" where
  "redactEntry lg e =
     (case arguments e of
        None \<Rightarrow> e
      | Some args \<Rightarrow> e\<lparr>arguments := Some (map (redactArg (opt_maxArgLength lg)) args)\<rparr>)"

definition computeHmac :: "crypto_runtime \<Rightarrow> AuditLogger \<Rightarrow> AuditEntry \<Rightarrow> string" where
  "computeHmac R lg e = hmac R (opt_signingKey lg) (stringify R e @ ''|'' @ prevHash lg)"

text \<open>
  \<open>log(entry)\<close>.  The line appended to the file is kept as the object that is
  serialised; the mirror on standard error, the byte counter and the rotation are left
  out (the file below is the one a logger writes while no rotation happens).
\<close>

definition log_entry :: "crypto_runtime \<Rightarrow> AuditLogger \<Rightarrow> AuditEntry \<Rightarrow> AuditLogger" where
  "log_entry R lg e =
     (let processed = (if opt_redact lg then redactEntry lg e else e);
          lg1 = lg\<lparr>entries := entries lg @ [processed]\<rparr>
      in if opt_signing lg1
         then (let n = seqCounter lg1 + 1;
                   s = computeHmac R lg1 processed
               in lg1\<lparr>seqCounter := n, prevHash := s,
                       logFile := logFile lg1 @ [\<lparr>entry = processed, sig = Some s, seq = Some n\<rparr>]\<rparr>)
         else lg1\<lparr>logFile := logFile lg1 @ [\<lparr>entry = processed, sig = None, seq = None\<rparr>]\<rparr>)"

fun logAll :: "crypto_runtime \<Rightarrow> AuditLogger \<Rightarrow> AuditEntry list \<Rightarrow> AuditLogger" where
  "logAll R lg [] = lg"
| "logAll R lg (e # es) = logAll R (log_entry R lg e) es"

text \<open>The constructor with signing enabled and a given key; the other options at their
  defaults.\<close>

definition newSigningLogger :: "string \<Rightarrow> AuditLogger" where
  "newSigningLogger key =
     \<lparr>opt_redact = True, opt_maxArgLength = 200, opt_signing = True, opt_signingKey = key,
      entries = [], prevHash = ''genesis'', seqCounter = 0, logFile = []\<rparr>"

record ChainResult =
  valid :: bool
  entriesCount :: nat
  firstBroken :: "nat option"

text \<open>\<open>!_sig\<close> holds for an absent signature and for the empty string.\<close>

definition unsigned :: "SignedAuditEntry \<Rightarrow> bool" where
  "unsigned l = (case sig l of None \<Rightarrow> True | Some s \<Rightarrow> s = [])"

definition expectedSig :: "crypto_runtime \<Rightarrow> string \<Rightarrow> string \<Rightarrow> SignedAuditEntry \<Rightarrow> string" where
  "expectedSig R key prev l = hmac R key (stringify R (entry l) @ ''|'' @ prev)"

text \<open>The loop of \<open>verifyChain\<close>, with its two variables \<open>prevHash\<close> and \<open>firstBroken\<close>
  and the index \<open>i\<close>.\<close>

fun verifyLoop ::
  "crypto_runtime \<Rightarrow> string \<Rightarrow> string \<Rightarrow> nat option \<Rightarrow> nat \<Rightarrow> SignedAuditEntry list \<Rightarrow> nat option"
where
  "verifyLoop R key prev fb i [] = fb"
| "verifyLoop R key prev fb i (l # ls) =
     (if unsigned l then verifyLoop R key prev fb (i + 1) ls
      else (let fb1 = (if the (sig l) \<noteq> expectedSig R key prev l
                       then (if fb = None then Some i else fb) else fb)
            in verifyLoop R key (the (sig l)) fb1 (i + 1) ls))"

definition verifyChain :: "crypto_runtime \<Rightarrow> SignedAuditEntry list \<Rightarrow> string \<Rightarrow> ChainResult" where
  "verifyChain R lines key =
     (let fb = verifyLoop R key ''genesis'' None 0 lines
      in \<lparr>valid = (fb = None), entriesCount = length lines, firstBroken = fb\<rparr>)"

text \<open>
  The indices at which the comparison \<open>_sig !== expected\<close> of that loop is true, that is,
  the entries that fail signature recomputation.
\<close>

fun brokenFrom ::
  "crypto_runtime \<Rightarrow> string \<Rightarrow> string \<Rightarrow> nat \<Rightarrow> SignedAuditEntry list \<Rightarrow> nat list"
where
  "brokenFrom R key prev i [] = []"
| "brokenFrom R key prev i (l # ls) =
     (if unsigned l then brokenFrom R key prev (i + 1) ls
      else (if the (sig l) \<noteq> expectedSig R key prev l then [i] else [])
           @ brokenFrom R key (the (sig l)) (i + 1) ls)"

definition brokenIndices :: "crypto_runtime \<Rightarrow> string \<Rightarrow> SignedAuditEntry list \<Rightarrow> nat list" where
  "brokenIndices R key lines = brokenFrom R key ''genesis'' 0 lines"

text \<open>Tampering: the base fields of line \<open>k\<close> are replaced, \<open>_sig\<close> and \<open>_seq\<close> stay.\<close>

definition tamper :: "nat \<Rightarrow> AuditEntry \<Rightarrow> SignedAuditEntry list \<Rightarrow> SignedAuditEntry list" where
  "tamper k e' lines = (if k < length lines then lines[k := (lines ! k)\<lparr>entry := e'\<rparr>] else lines)"

text \<open>
  The chain that \<open>log\<close> builds: every line carries the HMAC of its own entry and of the
  signature before it (\<open>genesis\<close> before the first).
\<close>

fun chainOK :: "crypto_runtime \<Rightarrow> string \<Rightarrow> string \<Rightarrow> SignedAuditEntry list \<Rightarrow> bool" where
  "chainOK R key prev [] = True"
| "chainOK R key prev (l # ls) =
     (sig l = Some (expectedSig R key prev l) \<and> chainOK R key (expectedSig R key prev l) ls)"

fun lastSig :: "string \<Rightarrow> SignedAuditEntry list \<Rightarrow> string" where
  "lastSig prev [] = prev"
| "lastSig prev (l # ls) = lastSig (the (sig l)) ls"

definition prevSigAt :: "SignedAuditEntry list \<Rightarrow> nat \<Rightarrow> string" where
  "prevSigAt lines k = (if k = 0 then ''genesis'' else the (sig (lines ! (k - 1))))"



text \<open>
  A stand-in for the runtime, used to run the model on concrete entries: the digest is a
  non-empty string that contains key and payload in full (so it has no collisions), and
  the serialisation lists the timestamp and the tool.  The three entries are those of the
  repository's test "should detect tampered entries".
\<close>

definition toyCrypto :: crypto_runtime where
  "toyCrypto =
     \<lparr>hmac = (\<lambda>key payload. ''h('' @ key @ '','' @ payload @ '')''),
      stringify = (\<lambda>e. timestamp e @ '','' @ (case tool e of None \<Rightarrow> [] | Some t \<Rightarrow> t))\<rparr>"

definition toolEntry :: "string \<Rightarrow> string \<Rightarrow> AuditEntry" where
  "toolEntry ts name =
     \<lparr>timestamp = ts, sessionId = ''test'', direction = Request, ae_method = ''tools/call'',
      tool = Some name, arguments = None, verdict = None, responsePreview = None,
      latencyMs = None, error = None\<rparr>"

definition threeLines :: "SignedAuditEntry list" where
  "threeLines =
     logFile (logAll toyCrypto (newSigningLogger ''tamper-key-xyz'')
        [toolEntry ''t0'' ''tool_0'', toolEntry ''t1'' ''tool_1'', toolEntry ''t2'' ''tool_2''])"


subsection \<open>The chain written by \<open>log\<close> and read by \<open>verifyChain\<close>\<close>

lemma chainOK_append:
  "chainOK R key prev (xs @ [l]) =
     (chainOK R key prev xs \<and> sig l = Some (expectedSig R key (lastSig prev xs) l))"
proof (induction xs arbitrary: prev)
  case Nil
  show ?case by simp
next
  case (Cons a xs)
  show ?case
  proof (cases "sig a = Some (expectedSig R key prev a)")
    case True
    then show ?thesis using Cons.IH[of "expectedSig R key prev a"] by simp
  next
    case False
    then show ?thesis by simp
  qed
qed

lemma lastSig_append: "lastSig prev (xs @ [l]) = the (sig l)"
  by (induction xs arbitrary: prev) auto

lemma log_chain:
  assumes "opt_signing lg" "chainOK R (opt_signingKey lg) p0 (logFile lg)"
    "prevHash lg = lastSig p0 (logFile lg)"
  shows "opt_signing (log_entry R lg e) \<and> opt_signingKey (log_entry R lg e) = opt_signingKey lg
         \<and> chainOK R (opt_signingKey lg) p0 (logFile (log_entry R lg e))
         \<and> prevHash (log_entry R lg e) = lastSig p0 (logFile (log_entry R lg e))
         \<and> length (logFile (log_entry R lg e)) = Suc (length (logFile lg))"
  using assms
  by (simp add: log_entry_def Let_def chainOK_append lastSig_append computeHmac_def expectedSig_def)

lemma logAll_chain:
  assumes "opt_signing lg" "chainOK R (opt_signingKey lg) p0 (logFile lg)"
    "prevHash lg = lastSig p0 (logFile lg)"
  shows "chainOK R (opt_signingKey lg) p0 (logFile (logAll R lg es))
         \<and> length (logFile (logAll R lg es)) = length (logFile lg) + length es"
  using assms
proof (induction es arbitrary: lg)
  case Nil
  then show ?case by simp
next
  case (Cons e es)
  from log_chain[OF Cons.prems, of e] Cons.IH[of "log_entry R lg e"]
  show ?case by simp
qed

lemma brokenFrom_intact:
  assumes "chainOK R key prev ls" "\<And>p. hmac R key p \<noteq> []"
  shows "brokenFrom R key prev i ls = []"
  using assms
  by (induction ls arbitrary: prev i) (auto simp: unsigned_def expectedSig_def)

lemma chainOK_nth_sig:
  assumes "chainOK R key prev ls" "k < length ls"
  shows "sig (ls ! k) = Some (hmac R key (stringify R (entry (ls ! k)) @ ''|'' @
            (if k = 0 then prev else the (sig (ls ! (k - 1))))))"
  using assms
proof (induction ls arbitrary: prev k)
  case Nil
  then show ?case by simp
next
  case (Cons l ls)
  show ?case
  proof (cases k)
    case 0
    with Cons.prems show ?thesis by (simp add: expectedSig_def)
  next
    case (Suc j)
    with Cons.prems have "chainOK R key (expectedSig R key prev l) ls" "j < length ls" by auto
    from Cons.IH[OF this] Suc Cons.prems show ?thesis
      by (cases j) (auto simp: expectedSig_def)
  qed
qed

lemma tamper_0: "tamper 0 e' (l # ls) = l\<lparr>entry := e'\<rparr> # ls"
  by (simp add: tamper_def)

lemma tamper_Suc: "tamper (Suc k) e' (l # ls) = l # tamper k e' ls"
  by (simp add: tamper_def)

lemma brokenFrom_tamper:
  assumes "chainOK R key prev ls" "\<And>p. hmac R key p \<noteq> []" "k < length ls"
    "hmac R key (stringify R e' @ ''|'' @ (if k = 0 then prev else the (sig (ls ! (k - 1)))))
       \<noteq> the (sig (ls ! k))"
  shows "brokenFrom R key prev i (tamper k e' ls) = [i + k]"
  using assms
proof (induction ls arbitrary: prev i k)
  case Nil
  then show ?case by simp
next
  case (Cons l ls)
  from Cons.prems(1) have ok: "chainOK R key (expectedSig R key prev l) ls"
    and s: "sig l = Some (expectedSig R key prev l)" by simp_all
  have ne: "expectedSig R key prev l \<noteq> []"
    using Cons.prems(2) by (simp add: expectedSig_def)
  have us: "\<not> unsigned l" "\<not> unsigned (l\<lparr>entry := e'\<rparr>)"
    using s ne by (simp_all add: unsigned_def)
  show ?case
  proof (cases k)
    case 0
    have rest: "brokenFrom R key (expectedSig R key prev l) (i + 1) ls = []"
      by (rule brokenFrom_intact[OF ok Cons.prems(2)])
    have mis: "the (sig (l\<lparr>entry := e'\<rparr>)) \<noteq> expectedSig R key prev (l\<lparr>entry := e'\<rparr>)"
      using Cons.prems(4) 0 s by (simp add: expectedSig_def)
    show ?thesis
      unfolding 0 tamper_0 using us mis rest s by simp
  next
    case (Suc j)
    from Cons.prems(3) Suc have j: "j < length ls" by simp
    have ch: "hmac R key (stringify R e' @ ''|'' @
                (if j = 0 then expectedSig R key prev l else the (sig (ls ! (j - 1)))))
              \<noteq> the (sig (ls ! j))"
    proof (cases j)
      case 0
      with Cons.prems(4) Suc s show ?thesis by simp
    next
      case (Suc j')
      with Cons.prems(4) \<open>k = Suc j\<close> show ?thesis by simp
    qed
    have ih: "brokenFrom R key (expectedSig R key prev l) (i + 1) (tamper j e' ls) = [i + 1 + j]"
      by (rule Cons.IH[OF ok Cons.prems(2) j ch])
    show ?thesis
      unfolding Suc tamper_Suc using us ih s by simp
  qed
qed

lemma verifyLoop_broken:
  "verifyLoop R key prev fb i ls =
     (case fb of Some x \<Rightarrow> Some x
      | None \<Rightarrow> (case brokenFrom R key prev i ls of [] \<Rightarrow> None | j # _ \<Rightarrow> Some j))"
  by (induction ls arbitrary: prev fb i) (auto simp: Let_def split: option.splits list.splits)


lemma threeLines_eq:
  "threeLines =
     [\<lparr>entry = toolEntry ''t0'' ''tool_0'', sig = Some ''h(tamper-key-xyz,t0,tool_0|genesis)'', seq = Some 1\<rparr>,
      \<lparr>entry = toolEntry ''t1'' ''tool_1'',
       sig = Some ''h(tamper-key-xyz,t1,tool_1|h(tamper-key-xyz,t0,tool_0|genesis))'', seq = Some 2\<rparr>,
      \<lparr>entry = toolEntry ''t2'' ''tool_2'',
       sig = Some ''h(tamper-key-xyz,t2,tool_2|h(tamper-key-xyz,t1,tool_1|h(tamper-key-xyz,t0,tool_0|genesis)))'',
       seq = Some 3\<rparr>]"
  by (simp add: threeLines_def newSigningLogger_def log_entry_def Let_def redactEntry_def
        toolEntry_def computeHmac_def toyCrypto_def)


subsection \<open>Claim C3\<close>

text \<open>
  C3 as stated: after a modification of the base fields of entry \<open>k\<close>, entry \<open>k\<close> and
  every later entry fail signature recomputation.  \<open>verifyChain\<close> continues with the
  stored signature (\<open>prevHash = _sig\<close>), not with the recomputed one, so the entries after
  \<open>k\<close> still verify: with three logged entries and entry 1 modified, entry 2 is not
  among the entries whose comparison fails.
\<close>

theorem C3_later_entries_counterexample:
  "2 \<notin> set (brokenIndices toyCrypto ''tamper-key-xyz''
                (tamper 1 (toolEntry ''t1'' ''TAMPERED'') threeLines))"
  by (simp add: threeLines_eq brokenIndices_def tamper_def unsigned_def expectedSig_def
        toyCrypto_def toolEntry_def)


text \<open>
  C3 amended: when signing is enabled, for every sequence of entries logged by a fresh
  logger and every modification of the base fields of the persisted entry at index \<open>k\<close>
  (its signature left intact) whose recomputed HMAC differs from the stored signature,
  \<open>verifyChain\<close> reports the chain invalid with \<open>firstBroken = k\<close>; entry \<open>k\<close> is the
  only entry that fails signature recomputation (HMAC digests are non-empty strings).
\<close>

theorem C3_tampering_breaks_entry_k_only:
  assumes sign: "opt_signing lg" and fresh: "logFile lg = []" "prevHash lg = ''genesis''"
    and nonempty: "\<And>p. hmac R (opt_signingKey lg) p \<noteq> []"
    and k: "k < length es"
    and lines: "lines = logFile (logAll R lg es)"
    and changed: "hmac R (opt_signingKey lg) (stringify R e' @ ''|'' @ prevSigAt lines k)
                    \<noteq> the (sig (lines ! k))"
  shows "verifyChain R (tamper k e' lines) (opt_signingKey lg)
           = \<lparr>valid = False, entriesCount = length es, firstBroken = Some k\<rparr>
         \<and> brokenIndices R (opt_signingKey lg) (tamper k e' lines) = [k]"
proof -
  let ?key = "opt_signingKey lg"
  have ch: "chainOK R ?key ''genesis'' lines" and len: "length lines = length es"
    using logAll_chain[of lg R "''genesis''" es] sign fresh lines by simp_all
  have klen: "k < length lines" using k len by simp
  have changed': "hmac R ?key (stringify R e' @ ''|'' @
        (if k = 0 then ''genesis'' else the (sig (lines ! (k - 1))))) \<noteq> the (sig (lines ! k))"
    using changed by (simp add: prevSigAt_def)
  have br: "brokenFrom R ?key ''genesis'' 0 (tamper k e' lines) = [k]"
    using brokenFrom_tamper[OF ch nonempty klen changed', of 0] by simp
  have tl: "length (tamper k e' lines) = length es"
    using len by (simp add: tamper_def)
  show ?thesis
    using br tl by (simp add: verifyChain_def brokenIndices_def verifyLoop_broken)
qed

theorem C3_tampering_breaks_entry_k_only_witness:
  "verifyChain toyCrypto (tamper 1 (toolEntry ''t1'' ''TAMPERED'') threeLines) ''tamper-key-xyz''
     = \<lparr>valid = False, entriesCount = 3, firstBroken = Some 1\<rparr>
   \<and> brokenIndices toyCrypto ''tamper-key-xyz''
        (tamper 1 (toolEntry ''t1'' ''TAMPERED'') threeLines) = [1]"
proof -
  let ?lg = "newSigningLogger ''tamper-key-xyz''"
  let ?es = "[toolEntry ''t0'' ''tool_0'', toolEntry ''t1'' ''tool_1'', toolEntry ''t2'' ''tool_2'']"
  have h1: "opt_signing ?lg" and h2: "logFile ?lg = []" and h3: "prevHash ?lg = ''genesis''"
    by (simp_all add: newSigningLogger_def)
  have h4: "\<And>p. hmac toyCrypto (opt_signingKey ?lg) p \<noteq> []"
    by (simp add: toyCrypto_def)
  have h5: "1 < length ?es" by simp
  have h6: "threeLines = logFile (logAll toyCrypto ?lg ?es)"
    by (simp only: threeLines_def)
  have h7: "hmac toyCrypto (opt_signingKey ?lg)
              (stringify toyCrypto (toolEntry ''t1'' ''TAMPERED'') @ ''|'' @ prevSigAt threeLines 1)
            \<noteq> the (sig (threeLines ! 1))"
    by (simp add: threeLines_eq prevSigAt_def toyCrypto_def toolEntry_def newSigningLogger_def)
  have key: "opt_signingKey ?lg = ''tamper-key-xyz''"
    by (simp add: newSigningLogger_def)
  from C3_tampering_breaks_entry_k_only [OF h1 h2 h3 h4 h5 h6 h7]
  show ?thesis unfolding key by simp
qed

section \<open>Policy engine (policy-engine.ts)\<close>

subsection \<open>Types\<close>

record ToolCallParams =
  tc_name :: string
  tc_arguments :: "(string \<times> json) list option"

text \<open>\<open>maxCalls\<close> is an integer in the policy schema, \<open>windowSeconds\<close> any number.\<close>

record RateLimitConfig =
  maxCalls :: int
  windowSeconds :: rat

text \<open>\<open>r_matchArguments\<close> is \<open>rule.match?.arguments\<close>.\<close>

record PolicyRule =
  r_name :: string
  r_tool :: string
  r_matchArguments :: "(string \<times> string) list option"
  r_action :: RuleAction
  r_message :: "string option"
  r_rateLimit :: "RateLimitConfig option"

datatype PolicyMode = Standard | Strict

record PolicyConfig =
  c_mode :: "PolicyMode option"
  c_defaultAction :: "RuleAction option"
  c_globalRateLimit :: "RateLimitConfig option"
  c_rules :: "PolicyRule list"

text \<open>
  What the engine takes from outside the repository:
  \<^item> \<open>normalizeNFC\<close> is \<open>String.prototype.normalize("NFC")\<close>;
  \<^item> \<open>minimatch dot s p\<close> is \<open>minimatch(s, p, { dot })\<close> of the npm package of that
    name (\<open>minimatch(s, p)\<close> when \<open>dot\<close> is false);
  \<^item> \<open>numberToString\<close> is the conversion of a number inside a template literal.
  They are parameters of the model; the theorems that do not mention a particular
  runtime hold for all of them.
\<close>

record js_runtime =
  normalizeNFC :: "string \<Rightarrow> string"
  minimatch :: "bool \<Rightarrow> string \<Rightarrow> string \<Rightarrow> bool"
  numberToString :: "rat \<Rightarrow> string"

subsection \<open>Rate limiter\<close>

text \<open>
  \<open>buckets\<close> is the \<open>Map\<close> from key to timestamps; a time is \<open>Date.now()\<close>, in
  milliseconds.  When the limit is exceeded the pruned list stays in a bucket that was
  already in the map (the filter assigns to the stored object) and a bucket that was
  not in the map is not added.
\<close>

type_synonym buckets = "string \<Rightarrow> int list option"

definition RateLimiter_check ::
  "buckets \<Rightarrow> string \<Rightarrow> RateLimitConfig \<Rightarrow> int \<Rightarrow> bool \<times> buckets" where
  "RateLimiter_check bk key config now =
     (let windowMs = windowSeconds config * 1000;
          timestamps = (case bk key of None \<Rightarrow> [] | Some ts \<Rightarrow> ts);
          pruned = filter (\<lambda>t. of_int (now - t) < windowMs) timestamps
      in if of_int (int (length pruned)) \<ge> maxCalls config
         then (False, (case bk key of None \<Rightarrow> bk | Some _ \<Rightarrow> bk(key \<mapsto> pruned)))
         else (True, bk(key \<mapsto> pruned @ [now])))"

subsection \<open>Normalization utilities\<close>

definition backslash :: char where
  "backslash = CHR 0x5C"

definition looksLikePath :: "string \<Rightarrow> bool" where
  "looksLikePath v =
     (CHR ''/'' \<in> set v \<or> backslash \<in> set v \<or> startsWith v ''.'' \<or> startsWith v ''~'')"

text \<open>\<open>s.split(sep)\<close> for a one-character separator, and \<open>parts.join(sep)\<close>.\<close>

fun splitOn :: "char \<Rightarrow> string \<Rightarrow> string list" where
  "splitOn sep [] = [[]]"
| "splitOn sep (c # cs) =
     (if c = sep then [] # splitOn sep cs
      else (case splitOn sep cs of [] \<Rightarrow> [[c]] | w # ws \<Rightarrow> (c # w) # ws))"

fun joinWith :: "string \<Rightarrow> string list \<Rightarrow> string" where
  "joinWith sep [] = []"
| "joinWith sep [x] = x"
| "joinWith sep (x # y # ys) = x @ sep @ joinWith sep (y # ys)"

text \<open>
  \<open>path.posix.normalize\<close> of Node.js, which \<open>normalizePath\<close> calls.  Node walks the
  characters and keeps the result string \<open>res\<close>; here the segments between slashes are
  walked and \<open>res\<close> is a stack of segments, top first: an empty segment and \<open>.\<close> are
  skipped; \<open>..\<close> removes the last segment unless there is none or it is \<open>..\<close> itself, in
  which case \<open>..\<close> is appended when \<open>allowAboveRoot\<close> (the path is relative) and skipped
  otherwise; any other segment is appended.
\<close>

definition normalizeStep :: "bool \<Rightarrow> string list \<Rightarrow> string \<Rightarrow> string list" where
  "normalizeStep allowAboveRoot res s =
     (if s = [] \<or> s = ''.'' then res
      else if s = ''..''
        then (case res of
                [] \<Rightarrow> (if allowAboveRoot then [''..''] else [])
              | t # ts \<Rightarrow>
                  (if t = ''..'' then (if allowAboveRoot then ''..'' # res else res) else ts))
      else s # res)"

fun normalizeSegments :: "bool \<Rightarrow> string list \<Rightarrow> string list \<Rightarrow> string list" where
  "normalizeSegments allowAboveRoot res [] = res"
| "normalizeSegments allowAboveRoot res (s # ss) =
     normalizeSegments allowAboveRoot (normalizeStep allowAboveRoot res s) ss"

definition normalizeString :: "string \<Rightarrow> bool \<Rightarrow> string" where
  "normalizeString path allowAboveRoot =
     joinWith ''/'' (rev (normalizeSegments allowAboveRoot [] (splitOn (CHR ''/'') path)))"

definition posix_normalize :: "string \<Rightarrow> string" where
  "posix_normalize path =
     (if path = [] then ''.''
      else (let isAbsolute = (hd path = CHR ''/'');
                trailingSeparator = (last path = CHR ''/'');
                res = normalizeString path (\<not> isAbsolute)
            in if res = []
               then (if isAbsolute then ''/'' else if trailingSeparator then ''./'' else ''.'')
               else (if isAbsolute then ''/'' else []) @ res
                    @ (if trailingSeparator then ''/'' else [])))"

definition normalizePath :: "string \<Rightarrow> string" where
  "normalizePath p = posix_normalize (map (\<lambda>c. if c = backslash then CHR ''/'' else c) p)"

definition normalizeValue :: "js_runtime \<Rightarrow> string \<Rightarrow> string" where
  "normalizeValue R v =
     (let normalized = normalizeNFC R v
      in if looksLikePath normalized then normalizePath normalized else normalized)"

text \<open>
  \<open>safeGlobToRegex(p)\<close> followed by \<open>regex.test(s)\<close>.  After the escaping step every
  character of the pattern except \<open>*\<close> and \<open>?\<close> is a literal; \<open>*\<close> has become \<open>.*\<close> and
  \<open>?\<close> has become \<open>.\<close>, which match any character but a line terminator; the
  expression is anchored at both ends and has the flag \<open>i\<close>.  A pattern of more than 500
  characters gives no regex.
\<close>

definition isLineTerminator :: "char \<Rightarrow> bool" where
  "isLineTerminator c = (c = CHR 0x0A \<or> c = CHR 0x0D)"

fun globRegexTest :: "string \<Rightarrow> string \<Rightarrow> bool" where
  "globRegexTest [] s = (s = [])"
| "globRegexTest (p # ps) s =
     (if p = CHR ''*''
      then (globRegexTest ps s
            \<or> (case s of [] \<Rightarrow> False
                | c # cs \<Rightarrow> \<not> isLineTerminator c \<and> globRegexTest (p # ps) cs))
      else (case s of [] \<Rightarrow> False
            | c # cs \<Rightarrow>
                (if p = CHR ''?'' then \<not> isLineTerminator c else toLowerChar p = toLowerChar c)
                \<and> globRegexTest ps cs))"

definition safeGlobTest :: "string \<Rightarrow> string \<Rightarrow> bool" where
  "safeGlobTest p s = (if length p > 500 then False else globRegexTest p s)"

subsection \<open>Argument key aliases\<close>

definition PATH_KEY_ALIASES :: "(string \<times> string list) list" where
  "PATH_KEY_ALIASES =
     [(''path'', [''file'', ''filepath'', ''file_path'', ''filename'', ''file_name'', ''target'',
                  ''source'', ''destination'', ''dest'', ''src'', ''uri'', ''url'']),
      (''command'', [''cmd'', ''shell'', ''exec'', ''script'', ''run'']),
      (''content'', [''text'', ''body'', ''data'', ''input'', ''message''])]"

text \<open>The table is looked up among its own three keys (properties inherited from
  \<open>Object.prototype\<close> are not modelled).\<close>

definition getKeyAliases :: "string \<Rightarrow> string list" where
  "getKeyAliases key =
     (let lowerKey = toLowerCase key
      in case map_of PATH_KEY_ALIASES lowerKey of
           Some aliases \<Rightarrow> lowerKey # aliases
         | None \<Rightarrow>
             (case find (\<lambda>ca. lowerKey \<in> set (snd ca)) PATH_KEY_ALIASES of
                Some ca \<Rightarrow> fst ca # snd ca
              | None \<Rightarrow> [lowerKey]))"

subsection \<open>Matching\<close>

definition isWhiteSpace :: "char \<Rightarrow> bool" where
  "isWhiteSpace c = (c \<in> set [CHR 0x09, CHR 0x0A, CHR 0x0B, CHR 0x0C, CHR 0x0D, CHR 0x20])"

definition trim :: "string \<Rightarrow> string" where
  "trim s = rev (dropWhile isWhiteSpace (rev (dropWhile isWhiteSpace s)))"

text \<open>\<open>pattern.split("|").map((p) => p.trim())\<close>\<close>

definition alternatives :: "string \<Rightarrow> string list" where
  "alternatives pattern = map trim (splitOn (CHR ''|'') pattern)"

text \<open>\<open>String(rawValue)\<close>: a string is itself; an array is its elements joined by commas,
  with \<open>null\<close> elements empty; an object is \<open>[object Object]\<close>.\<close>

fun jsString :: "js_runtime \<Rightarrow> json \<Rightarrow> string" where
  "jsString R JNull = ''null''"
| "jsString R (JBool b) = (if b then ''true'' else ''false'')"
| "jsString R (JNum n) = numberToString R (of_int n)"
| "jsString R (JStr s) = s"
| "jsString R (JArr xs) =
     joinWith '','' (map (\<lambda>x. if x = JNull then [] else jsString R x) xs)"
| "jsString R (JObj kvs) = ''[object Object]''"

text \<open>The lookup of the actual value: the first alias, in order, for which some key of
  the arguments lower-cases to it.\<close>

fun findRawValue :: "string list \<Rightarrow> (string \<times> json) list \<Rightarrow> json option" where
  "findRawValue [] actualArgs = None"
| "findRawValue (alias # aliases) actualArgs =
     (case find (\<lambda>kv. toLowerCase (fst kv) = alias) actualArgs of
        Some kv \<Rightarrow> Some (snd kv)
      | None \<Rightarrow> findRawValue aliases actualArgs)"

definition hasWildcard :: "string \<Rightarrow> bool" where
  "hasWildcard p = (CHR ''*'' \<in> set p \<or> CHR ''?'' \<in> set p)"

definition matchAlternative :: "js_runtime \<Rightarrow> string \<Rightarrow> string \<Rightarrow> bool" where
  "matchAlternative R strValue p =
     (if minimatch R True strValue p then True
      else if hasWildcard p \<and> safeGlobTest p strValue then True
      else if \<not> hasWildcard p then str_includes (toLowerCase strValue) (toLowerCase p)
      else False)"

definition matchArguments ::
  "js_runtime \<Rightarrow> (string \<times> string) list \<Rightarrow> (string \<times> json) list \<Rightarrow> bool" where
  "matchArguments R ruleArgs actualArgs =
     list_all
       (\<lambda>kp. case findRawValue (getKeyAliases (fst kp)) actualArgs of
                None \<Rightarrow> False
              | Some rawValue \<Rightarrow>
                  (let strValue = normalizeValue R (jsString R rawValue)
                   in list_ex (matchAlternative R strValue) (alternatives (snd kp))))
       ruleArgs"

definition matchToolName :: "js_runtime \<Rightarrow> string \<Rightarrow> string \<Rightarrow> bool" where
  "matchToolName R pattern toolName =
     list_ex (\<lambda>p. minimatch R False toolName p) (alternatives pattern)"

definition matchesRule :: "js_runtime \<Rightarrow> PolicyRule \<Rightarrow> ToolCallParams \<Rightarrow> bool" where
  "matchesRule R rule toolCall =
     (let normalizedToolName = normalizeNFC R (tc_name toolCall)
      in if \<not> matchToolName R (r_tool rule) normalizedToolName then False
         else (case r_matchArguments rule of
                 None \<Rightarrow> True
               | Some ruleArgs \<Rightarrow>
                   matchArguments R ruleArgs
                     (case tc_arguments toolCall of None \<Rightarrow> [] | Some a \<Rightarrow> a)))"

subsection \<open>Evaluation\<close>

definition dquote :: string where
  "dquote = [CHR 0x22]"

definition actionWord :: "RuleAction \<Rightarrow> string" where
  "actionWord a = (case a of Allow \<Rightarrow> ''allow'' | Deny \<Rightarrow> ''deny'' | Prompt \<Rightarrow> ''prompt'')"

definition limitText :: "js_runtime \<Rightarrow> RateLimitConfig \<Rightarrow> string \<Rightarrow> string" where
  "limitText R rl sep =
     numberToString R (of_int (maxCalls rl)) @ sep @ numberToString R (windowSeconds rl) @ ''s)''"

definition globalRateLimitVerdict :: "js_runtime \<Rightarrow> RateLimitConfig \<Rightarrow> PolicyVerdict" where
  "globalRateLimitVerdict R rl =
     \<lparr>v_action = Deny, v_rule = Some ''__global_rate_limit__'',
      v_message = ''Global rate limit exceeded ('' @ limitText R rl '' calls per ''\<rparr>"

definition ruleRateLimitVerdict :: "js_runtime \<Rightarrow> PolicyRule \<Rightarrow> RateLimitConfig \<Rightarrow> PolicyVerdict" where
  "ruleRateLimitVerdict R rule rl =
     \<lparr>v_action = Deny, v_rule = Some (r_name rule),
      v_message = (case r_message rule of
                     Some m \<Rightarrow> m
                   | None \<Rightarrow> ''Rate limit exceeded for rule '' @ dquote @ r_name rule @ dquote
                             @ '' ('' @ limitText R rl '' per '')\<rparr>"

definition ruleVerdict :: "PolicyRule \<Rightarrow> PolicyVerdict" where
  "ruleVerdict rule =
     \<lparr>v_action = r_action rule, v_rule = Some (r_name rule),
      v_message = (case r_message rule of
                     Some m \<Rightarrow> m
                   | None \<Rightarrow> (if r_action rule = Deny then ''Blocked''
                              else if r_action rule = Prompt then ''Approval required''
                              else ''Allowed'')
                             @ '' by rule '' @ dquote @ r_name rule @ dquote)\<rparr>"

definition defaultVerdict :: "PolicyConfig \<Rightarrow> PolicyVerdict" where
  "defaultVerdict config =
     (let isStrict = (c_mode config = Some Strict);
          defaultAction = (if isStrict then Deny
                           else (case c_defaultAction config of None \<Rightarrow> Prompt | Some a \<Rightarrow> a))
      in \<lparr>v_action = defaultAction, v_rule = None,
          v_message = (if isStrict
                       then ''Zero-trust mode: no matching allow rule. Denied by default.''
                       else ''No matching rule. Default action: '' @ actionWord defaultAction)\<rparr>)"

text \<open>The body of the loop over the rules for a rule that matches: the per-rule rate
  limit, then the verdict of the rule.\<close>

definition applyRule ::
  "js_runtime \<Rightarrow> buckets \<Rightarrow> int \<Rightarrow> PolicyRule \<Rightarrow> PolicyVerdict \<times> buckets" where
  "applyRule R bk now rule =
     (case r_rateLimit rule of
        None \<Rightarrow> (ruleVerdict rule, bk)
      | Some rl \<Rightarrow>
          (case RateLimiter_check bk (''rule:'' @ r_name rule) rl now of
             (ok, bk1) \<Rightarrow>
               if \<not> ok then (ruleRateLimitVerdict R rule rl, bk1) else (ruleVerdict rule, bk1)))"

fun evaluateRules ::
  "js_runtime \<Rightarrow> buckets \<Rightarrow> int \<Rightarrow> ToolCallParams \<Rightarrow> PolicyRule list
     \<Rightarrow> (PolicyVerdict \<times> buckets) option" where
  "evaluateRules R bk now toolCall [] = None"
| "evaluateRules R bk now toolCall (rule # rules) =
     (if matchesRule R rule toolCall then Some (applyRule R bk now rule)
      else evaluateRules R bk now toolCall rules)"

text \<open>
  \<open>evaluate(toolCall)\<close>.  The engine state is the bucket map; \<open>nowGlobal\<close> and
  \<open>nowRule\<close> are the two readings of \<open>Date.now()\<close>, one in the global check and one in
  the rule's check.
\<close>

definition evaluate ::
  "js_runtime \<Rightarrow> PolicyConfig \<Rightarrow> buckets \<Rightarrow> int \<Rightarrow> int \<Rightarrow> ToolCallParams
     \<Rightarrow> PolicyVerdict \<times> buckets" where
  "evaluate R config bk nowGlobal nowRule toolCall =
     (let rulesPhase = (\<lambda>bk1. case evaluateRules R bk1 nowRule toolCall (c_rules config) of
                                Some res \<Rightarrow> res
                              | None \<Rightarrow> (defaultVerdict config, bk1))
      in case c_globalRateLimit config of
           None \<Rightarrow> rulesPhase bk
         | Some rl \<Rightarrow>
             (case RateLimiter_check bk ''__global__'' rl nowGlobal of
                (ok, bk1) \<Rightarrow>
                  if \<not> ok then (globalRateLimitVerdict R rl, bk1) else rulesPhase bk1))"


subsection \<open>A concrete runtime\<close>

text \<open>
  To run the engine on concrete calls the three runtime functions need values.

  The glob matcher follows the algorithm of the \<open>minimatch\<close> package for patterns made
  of literal characters, \<open>*\<close>, \<open>?\<close> and \<open>/\<close> (brace expansion, character classes and
  extended globs are not modelled; their characters are taken literally).  The string
  and the pattern are split at slashes and compared part by part.  A part of the
  pattern is compared exactly, character by character (the package folds case only
  under its option \<open>nocase\<close>, which the engine never passes); \<open>*\<close> stands for any run of
  characters of the part and \<open>?\<close> for one; a part that starts with \<open>*\<close> or \<open>?\<close> matches
  no empty part and no part that starts with a dot (under \<open>dot\<close>: that is \<open>.\<close> or
  \<open>..\<close>).  The part \<open>**\<close> matches any number of parts, none of them \<open>.\<close> or \<open>..\<close> or,
  without \<open>dot\<close>, starting with a dot.  A pattern that starts with \<open>#\<close> matches
  nothing, and each leading \<open>!\<close> negates the result.
\<close>

fun wildMatch :: "string \<Rightarrow> string \<Rightarrow> bool" where
  "wildMatch [] s = (s = [])"
| "wildMatch (p # ps) s =
     (if p = CHR ''*''
      then (wildMatch ps s \<or> (case s of [] \<Rightarrow> False | c # cs \<Rightarrow> wildMatch (p # ps) cs))
      else (case s of [] \<Rightarrow> False
            | c # cs \<Rightarrow> (p = CHR ''?'' \<or> p = c) \<and> wildMatch ps cs))"

definition partMatch :: "bool \<Rightarrow> string \<Rightarrow> string \<Rightarrow> bool" where
  "partMatch dot p f =
     (wildMatch p f
      \<and> (case p of
            [] \<Rightarrow> True
          | c # _ \<Rightarrow>
              (if c = CHR ''*'' \<or> c = CHR ''?''
               then f \<noteq> [] \<and> \<not> isLineTerminator (hd f)
                    \<and> (if dot then f \<noteq> ''.'' \<and> f \<noteq> ''..'' else hd f \<noteq> CHR ''.'')
               else True)))"

definition dotPart :: "bool \<Rightarrow> string \<Rightarrow> bool" where
  "dotPart dot f = (f = ''.'' \<or> f = ''..'' \<or> (\<not> dot \<and> startsWith f ''.''))"

fun matchOne :: "bool \<Rightarrow> string list \<Rightarrow> string list \<Rightarrow> bool" where
  "matchOne dot [] [] = True"
| "matchOne dot (f # fs) [] = (fs = [] \<and> f = [])"
| "matchOne dot [] (p # ps) = False"
| "matchOne dot (f # fs) (p # ps) =
     (if p = ''**''
      then (if ps = [] then list_all (\<lambda>x. \<not> dotPart dot x) (f # fs)
            else (matchOne dot (f # fs) ps \<or> (\<not> dotPart dot f \<and> matchOne dot fs (p # ps))))
      else partMatch dot p f \<and> matchOne dot fs ps)"

text \<open>Splitting at runs of slashes: the empty parts between two slashes disappear, a
  leading and a trailing empty part stay.\<close>

definition slashSplit :: "string \<Rightarrow> string list" where
  "slashSplit s =
     (case splitOn (CHR ''/'') s of
        [] \<Rightarrow> []
      | [x] \<Rightarrow> [x]
      | x # rest \<Rightarrow> x # filter (\<lambda>y. y \<noteq> []) (butlast rest) @ [last rest])"

fun globNegated :: "bool \<Rightarrow> bool \<Rightarrow> string \<Rightarrow> string \<Rightarrow> bool" where
  "globNegated dot negate s [] = (if negate then \<not> matchOne dot (slashSplit s) [[]]
                                  else matchOne dot (slashSplit s) [[]])"
| "globNegated dot negate s (c # cs) =
     (if c = CHR ''!'' then globNegated dot (\<not> negate) s cs
      else (if negate then \<not> matchOne dot (slashSplit s) (slashSplit (c # cs))
            else matchOne dot (slashSplit s) (slashSplit (c # cs))))"

definition globMinimatch :: "bool \<Rightarrow> string \<Rightarrow> string \<Rightarrow> bool" where
  "globMinimatch dot s pattern =
     (if pattern = [] then s = []
      else if hd pattern = CHR ''#'' then False
      else globNegated dot False s pattern)"

text \<open>Decimal digits of an integer; a number that is not an integer prints as its
  integer part followed by \<open>.*\<close> (the examples use whole numbers only).\<close>

function showNat :: "nat \<Rightarrow> string" where
  "showNat n = (if n < 10 then [char_of (48 + n)] else showNat (n div 10) @ [char_of (48 + n mod 10)])"
  by pat_completeness auto
termination
  by (relation "measure id") auto

definition showInt :: "int \<Rightarrow> string" where
  "showInt i = (if i < 0 then ''-'' @ showNat (nat (- i)) else showNat (nat i))"

definition showNumber :: "rat \<Rightarrow> string" where
  "showNumber r = (if of_int \<lfloor>r\<rfloor> = r then showInt \<lfloor>r\<rfloor> else showInt \<lfloor>r\<rfloor> @ ''.*'')"

text \<open>On strings of ASCII characters NFC normalization changes nothing.\<close>

definition asciiRuntime :: js_runtime where
  "asciiRuntime =
     \<lparr>normalizeNFC = (\<lambda>s. s), minimatch = globMinimatch, numberToString = showNumber\<rparr>"

subsection \<open>Path normalization is idempotent\<close>

text \<open>
  The stack that \<open>normalizeSegments\<close> returns (top first): no segment is empty, is \<open>.\<close>
  or contains a slash, and below a \<open>..\<close> there are only \<open>..\<close>, which occur only when
  the path may rise above its root.
\<close>

fun okStack :: "bool \<Rightarrow> string list \<Rightarrow> bool" where
  "okStack a [] = True"
| "okStack a (t # ts) =
     (t \<noteq> [] \<and> t \<noteq> ''.'' \<and> CHR ''/'' \<notin> set t
      \<and> (if t = ''..'' then a \<and> list_all (\<lambda>x. x = ''..'') ts else okStack a ts))"

text \<open>The configuration and the path of the repository's test "should block path
  traversal to .ssh".\<close>

definition blockSshConfig :: PolicyConfig where
  "blockSshConfig =
     \<lparr>c_mode = None, c_defaultAction = None, c_globalRateLimit = None,
      c_rules = [\<lparr>r_name = ''block-ssh'', r_tool = ''*'',
                  r_matchArguments = Some [(''path'', ''**/.ssh/**'')],
                  r_action = Deny, r_message = None, r_rateLimit = None\<rparr>]\<rparr>"

definition traversalPath :: string where
  "traversalPath = ''/home/user/docs/../../.ssh/id_rsa''"

lemma normalizeSegments_append:
  "normalizeSegments a res (xs @ ys) = normalizeSegments a (normalizeSegments a res xs) ys"
  by (induction xs arbitrary: res) simp_all

lemma splitOn_nonempty: "splitOn c s \<noteq> []"
  by (induction s) (auto split: list.splits)

lemma splitOn_no_sep: "x \<in> set (splitOn c s) \<Longrightarrow> c \<notin> set x"
proof (induction s arbitrary: x)
  case Nil
  then show ?case by simp
next
  case (Cons d s)
  then show ?case
    by (cases "splitOn c s") (auto simp: splitOn_nonempty split: if_splits)
qed

lemma splitOn_chars: "w \<in> set (splitOn c s) \<Longrightarrow> set w \<subseteq> set s"
proof (induction s arbitrary: w)
  case Nil
  then show ?case by simp
next
  case (Cons d s)
  obtain a rest where sp: "splitOn c s = a # rest"
    using splitOn_nonempty[of c s] by (cases "splitOn c s") auto
  have ha: "set a \<subseteq> set s" using Cons.IH[of a] sp by simp
  have hr: "\<And>v. v \<in> set rest \<Longrightarrow> set v \<subseteq> set s" using Cons.IH sp by simp
  from Cons.prems sp ha hr show ?case
    by (auto split: if_splits)
qed

lemma splitOn_no_sep_id: "c \<notin> set s \<Longrightarrow> splitOn c s = [s]"
  by (induction s) auto

lemma splitOn_append_sep:
  "c \<notin> set x \<Longrightarrow> splitOn c (x @ c # rest) = x # splitOn c rest"
  by (induction x) auto

lemma splitOn_snoc_sep: "splitOn c (s @ [c]) = splitOn c s @ [[]]"
proof (induction s)
  case Nil
  show ?case by simp
next
  case (Cons d s)
  then show ?case
    by (cases "splitOn c s") (auto simp: splitOn_nonempty)
qed

lemma split_join:
  assumes "xs \<noteq> []" "\<forall>x \<in> set xs. CHR ''/'' \<notin> set x"
  shows "splitOn (CHR ''/'') (joinWith ''/'' xs) = xs"
  using assms
proof (induction xs)
  case Nil
  then show ?case by simp
next
  case (Cons x xs)
  show ?case
  proof (cases xs)
    case Nil
    with Cons.prems show ?thesis by (simp add: splitOn_no_sep_id)
  next
    case (Cons y ys)
    with Cons.prems Cons.IH
    have "splitOn (CHR ''/'') (joinWith ''/'' (y # ys)) = y # ys" by simp
    with Cons.prems Cons show ?thesis
      using splitOn_append_sep[of "CHR ''/''" x "joinWith ''/'' (y # ys)"] by simp
  qed
qed

lemma all_dots_ok: "a \<Longrightarrow> list_all (\<lambda>x. x = ''..'') ts \<Longrightarrow> okStack a ts"
  by (induction ts) auto

lemma okStack_tail: "okStack a (t # ts) \<Longrightarrow> okStack a ts"
  by (auto simp: all_dots_ok split: if_splits)

lemma okStack_step:
  assumes "okStack a res" "CHR ''/'' \<notin> set s"
  shows "okStack a (normalizeStep a res s)"
proof (cases res)
  case Nil
  with assms show ?thesis by (auto simp: normalizeStep_def)
next
  case (Cons t ts)
  with assms okStack_tail[of a t ts] show ?thesis
    by (auto simp: normalizeStep_def split: if_splits)
qed

lemma okStack_segments:
  assumes "okStack a res" "\<forall>s \<in> set ss. CHR ''/'' \<notin> set s"
  shows "okStack a (normalizeSegments a res ss)"
  using assms
  by (induction ss arbitrary: res) (simp_all add: okStack_step)

lemma step_fix:
  assumes "okStack a (t # ts)"
  shows "normalizeStep a ts t = t # ts"
proof (cases "t = ''..''")
  case True
  with assms show ?thesis
    by (cases ts) (auto simp: normalizeStep_def)
next
  case False
  with assms show ?thesis by (auto simp: normalizeStep_def)
qed

lemma segments_fix:
  "okStack a st \<Longrightarrow> normalizeSegments a [] (rev st) = st"
proof (induction st)
  case Nil
  show ?case by simp
next
  case (Cons t ts)
  from Cons.prems have "okStack a ts" by (rule okStack_tail)
  with Cons.IH have "normalizeSegments a [] (rev ts) = ts" by simp
  then show ?case
    using step_fix[OF Cons.prems] by (simp add: normalizeSegments_append)
qed

lemma segments_skip_empty_front:
  "normalizeSegments a res ([] # ss) = normalizeSegments a res ss"
  by (simp add: normalizeStep_def)

lemma segments_skip_empty_back:
  "normalizeSegments a res (ss @ [[]]) = normalizeSegments a res ss"
  by (simp add: normalizeSegments_append normalizeStep_def)

lemma okStack_elems: "okStack a st \<Longrightarrow> x \<in> set st \<Longrightarrow> x \<noteq> [] \<and> CHR ''/'' \<notin> set x"
proof (induction st)
  case Nil
  then show ?case by simp
next
  case (Cons t ts)
  from Cons.prems(1) have "okStack a ts" by (rule okStack_tail)
  with Cons show ?case by auto
qed

lemma join_hd: "xs \<noteq> [] \<Longrightarrow> hd xs \<noteq> [] \<Longrightarrow> hd (joinWith sep xs) = hd (hd xs)"
proof (cases xs)
  case Nil
  assume "xs \<noteq> []" with Nil show ?thesis by simp
next
  case (Cons x ys)
  assume "hd xs \<noteq> []"
  with Cons show ?thesis by (cases ys) auto
qed

lemma join_last_aux:
  "xs \<noteq> [] \<Longrightarrow> last xs \<noteq> [] \<Longrightarrow>
     joinWith sep xs \<noteq> [] \<and> last (joinWith sep xs) = last (last xs)"
proof (induction xs)
  case Nil
  then show ?case by simp
next
  case (Cons x xs)
  show ?case
  proof (cases xs)
    case Nil
    with Cons.prems show ?thesis by simp
  next
    case (Cons y ys)
    with Cons.prems Cons.IH
    have "joinWith sep (y # ys) \<noteq> [] \<and> last (joinWith sep (y # ys)) = last (last (y # ys))"
      by simp
    with Cons show ?thesis by simp
  qed
qed

lemma join_last:
  "xs \<noteq> [] \<Longrightarrow> last xs \<noteq> [] \<Longrightarrow> last (joinWith sep xs) = last (last xs)"
  using join_last_aux by blast

lemma join_Nil_iff: "\<forall>x \<in> set xs. x \<noteq> [] \<Longrightarrow> (joinWith sep xs = []) = (xs = [])"
proof (cases xs)
  case Nil
  then show ?thesis by simp
next
  case (Cons x ys)
  assume "\<forall>x \<in> set xs. x \<noteq> []"
  with Cons show ?thesis by (cases ys) auto
qed

lemma posix_normalize_fixed:
  "posix_normalize ''.'' = ''.''" "posix_normalize ''/'' = ''/''" "posix_normalize ''./'' = ''./''"
  by (simp_all add: posix_normalize_def normalizeString_def normalizeStep_def)

lemma posix_normalize_idem: "posix_normalize (posix_normalize p) = posix_normalize p"
proof (cases "p = []")
  case True
  then have "posix_normalize p = ''.''" by (simp add: posix_normalize_def)
  then show ?thesis by (simp add: posix_normalize_fixed)
next
  case False
  define ab where "ab = (hd p = CHR ''/'')"
  define tr where "tr = (last p = CHR ''/'')"
  define st where "st = normalizeSegments (\<not> ab) [] (splitOn (CHR ''/'') p)"
  define xs where "xs = rev st"
  define res where "res = joinWith ''/'' xs"
  define out where "out = (if ab then ''/'' else []) @ res @ (if tr then ''/'' else [])"
  have ok: "okStack (\<not> ab) st"
    unfolding st_def by (rule okStack_segments) (auto dest: splitOn_no_sep)
  have el: "\<forall>x \<in> set xs. x \<noteq> [] \<and> CHR ''/'' \<notin> set x"
    using okStack_elems[OF ok] by (simp add: xs_def)
  have res_eq: "normalizeString p (\<not> ab) = res"
    by (simp add: normalizeString_def res_def st_def xs_def)
  show ?thesis
  proof (cases "res = []")
    case True
    then have "posix_normalize p = ''/'' \<or> posix_normalize p = ''./'' \<or> posix_normalize p = ''.''"
      using False res_eq by (auto simp: posix_normalize_def Let_def ab_def)
    then show ?thesis by (auto simp: posix_normalize_fixed)
  next
    case rne: False
    have pn: "posix_normalize p = out"
      using False res_eq rne by (simp add: posix_normalize_def Let_def ab_def tr_def out_def)
    have xsne: "xs \<noteq> []" using rne by (auto simp: res_def)
    have hdin: "hd xs \<in> set xs" and lastin: "last xs \<in> set xs"
      using xsne by simp_all
    have hdne: "hd xs \<noteq> []" "CHR ''/'' \<notin> set (hd xs)"
      using el hdin by blast+
    have lastne: "last xs \<noteq> []" "CHR ''/'' \<notin> set (last xs)"
      using el lastin by blast+
    have "hd res = hd (hd xs)"
      unfolding res_def by (rule join_hd[OF xsne hdne(1)])
    moreover have "hd (hd xs) \<in> set (hd xs)" using hdne(1) by simp
    ultimately have hdres: "hd res \<noteq> CHR ''/''" using hdne(2) by metis
    have "last res = last (last xs)"
      unfolding res_def by (rule join_last[OF xsne lastne(1)])
    moreover have "last (last xs) \<in> set (last xs)" using lastne(1) by simp
    ultimately have lastres: "last res \<noteq> CHR ''/''" using lastne(2) by metis
    have outne: "out \<noteq> []" using rne by (simp add: out_def)
    have hdout: "(hd out = CHR ''/'') = ab"
      using hdres rne by (auto simp: out_def)
    have lastout: "(last out = CHR ''/'') = tr"
      using lastres rne by (auto simp: out_def)
    have sp: "splitOn (CHR ''/'') res = xs"
      unfolding res_def using split_join[OF xsne] el by simp
    have sp_out: "splitOn (CHR ''/'') out
                    = (if ab then [[]] else []) @ xs @ (if tr then [[]] else [])"
      using sp splitOn_snoc_sep[of "CHR ''/''" res] by (auto simp: out_def)
    have fixp: "normalizeSegments (\<not> ab) [] xs = st"
      unfolding xs_def by (rule segments_fix[OF ok])
    have "normalizeSegments (\<not> ab) [] (splitOn (CHR ''/'') out) = st"
      unfolding sp_out using fixp
      by (auto simp: segments_skip_empty_front segments_skip_empty_back
                     normalizeSegments_append normalizeStep_def)
    then have ns: "normalizeString out (\<not> ab) = res"
      by (simp add: normalizeString_def res_def xs_def)
    have "posix_normalize out = out"
      using outne hdout lastout ns rne
      by (simp add: posix_normalize_def Let_def) (simp add: out_def)
    with pn show ?thesis by simp
  qed
qed

lemma joinWith_chars: "set (joinWith sep xs) \<subseteq> set sep \<union> \<Union> (set ` set xs)"
proof (induction xs)
  case Nil
  show ?case by simp
next
  case (Cons x xs)
  then show ?case by (cases xs) auto
qed

lemma normalizeStep_elems:
  "set (normalizeStep a res s) \<subseteq> set res \<union> {s}"
  by (cases res) (auto simp: normalizeStep_def)

lemma normalizeSegments_elems:
  "set (normalizeSegments a res ss) \<subseteq> set res \<union> set ss"
proof (induction ss arbitrary: res)
  case Nil
  show ?case by simp
next
  case (Cons s ss)
  from Cons.IH[of "normalizeStep a res s"] normalizeStep_elems[of a res s]
  show ?case by auto
qed

lemma normalizeString_chars:
  "set (normalizeString path a) \<subseteq> set path \<union> {CHR ''/''}"
proof
  fix x assume "x \<in> set (normalizeString path a)"
  then have "x \<in> set ''/'' \<union> \<Union> (set ` set (rev (normalizeSegments a [] (splitOn (CHR ''/'') path))))"
    using joinWith_chars[of "''/''" "rev (normalizeSegments a [] (splitOn (CHR ''/'') path))"]
    unfolding normalizeString_def by blast
  then consider "x = CHR ''/''"
    | w where "w \<in> set (normalizeSegments a [] (splitOn (CHR ''/'') path))" "x \<in> set w"
    by auto
  then show "x \<in> set path \<union> {CHR ''/''}"
  proof cases
    case 1
    then show ?thesis by simp
  next
    case 2
    then have "w \<in> set (splitOn (CHR ''/'') path)"
      using normalizeSegments_elems[of a "[]" "splitOn (CHR ''/'') path"] by auto
    then have "set w \<subseteq> set path" by (rule splitOn_chars)
    with 2 show ?thesis by auto
  qed
qed

lemma posix_normalize_chars:
  "set (posix_normalize path) \<subseteq> set path \<union> {CHR ''/'', CHR ''.''}"
  using normalizeString_chars[of path "hd path \<noteq> CHR ''/''"]
  by (auto simp: posix_normalize_def Let_def)

lemma normalizePath_no_backslash: "backslash \<notin> set (normalizePath p)"
proof -
  let ?q = "map (\<lambda>c. if c = backslash then CHR ''/'' else c) p"
  have "backslash \<notin> set ?q" by (auto simp: backslash_def)
  moreover have "backslash \<noteq> CHR ''/''" "backslash \<noteq> CHR ''.''" by (simp_all add: backslash_def)
  ultimately show ?thesis
    using posix_normalize_chars[of ?q] unfolding normalizePath_def by blast
qed

lemma map_no_backslash:
  "backslash \<notin> set s \<Longrightarrow> map (\<lambda>c. if c = backslash then CHR ''/'' else c) s = s"
  by (induction s) auto

lemma normalizePath_idem: "normalizePath (normalizePath p) = normalizePath p"
proof -
  have "map (\<lambda>c. if c = backslash then CHR ''/'' else c) (normalizePath p) = normalizePath p"
    by (rule map_no_backslash[OF normalizePath_no_backslash])
  then have "normalizePath (normalizePath p) = posix_normalize (normalizePath p)"
    by (simp add: normalizePath_def)
  then show ?thesis by (simp add: normalizePath_def posix_normalize_idem)
qed

lemma normalizeValue_idem:
  assumes "normalizeNFC R (normalizeValue R p) = normalizeValue R p"
  shows "normalizeValue R (normalizeValue R p) = normalizeValue R p"
proof (cases "looksLikePath (normalizeNFC R p)")
  case True
  then have v: "normalizeValue R p = normalizePath (normalizeNFC R p)"
    by (simp add: normalizeValue_def)
  show ?thesis
    using assms unfolding normalizeValue_def[of R "normalizeValue R p"]
    by (simp add: v normalizePath_idem Let_def)
next
  case False
  then have v: "normalizeValue R p = normalizeNFC R p"
    by (simp add: normalizeValue_def)
  show ?thesis
    using assms False unfolding normalizeValue_def[of R "normalizeValue R p"]
    by (simp add: v Let_def)
qed

lemma findRawValue_single:
  "findRawValue as [(k, v)] = (if toLowerCase k \<in> set as then Some v else None)"
  by (induction as) auto

lemma matchArguments_path:
  assumes "normalizeNFC R (normalizeValue R p) = normalizeValue R p"
  shows "matchArguments R ruleArgs [(k, JStr (normalizeValue R p))]
           = matchArguments R ruleArgs [(k, JStr p)]"
  unfolding matchArguments_def findRawValue_single
  using normalizeValue_idem[OF assms]
  by (simp add: Let_def)

lemma matchesRule_path:
  assumes "normalizeNFC R (normalizeValue R p) = normalizeValue R p"
  shows "matchesRule R rule \<lparr>tc_name = name, tc_arguments = Some [(k, JStr (normalizeValue R p))]\<rparr>
           = matchesRule R rule \<lparr>tc_name = name, tc_arguments = Some [(k, JStr p)]\<rparr>"
  by (simp add: matchesRule_def matchArguments_path[OF assms] split: option.splits)

lemma evaluateRules_path:
  assumes "normalizeNFC R (normalizeValue R p) = normalizeValue R p"
  shows "evaluateRules R bk now \<lparr>tc_name = name, tc_arguments = Some [(k, JStr (normalizeValue R p))]\<rparr> rules
           = evaluateRules R bk now \<lparr>tc_name = name, tc_arguments = Some [(k, JStr p)]\<rparr> rules"
  by (induction rules) (simp_all add: matchesRule_path[OF assms])

lemma traversal_example:
  "normalizeValue asciiRuntime traversalPath = ''/home/.ssh/id_rsa''"
  "fst (evaluate asciiRuntime blockSshConfig Map.empty 0 0
      \<lparr>tc_name = ''read_file'', tc_arguments = Some [(''path'', JStr traversalPath)]\<rparr>)
   = \<lparr>v_action = Deny, v_rule = Some ''block-ssh'',
      v_message = ''Blocked by rule '' @ dquote @ ''block-ssh'' @ dquote\<rparr>"
  by code_simp+

subsection \<open>Claim C7\<close>

text \<open>
  C7: path normalization commutes with rule evaluation.  For every string \<open>p\<close>, every
  configuration, every state of the rate-limit buckets and every clock reading,
  \<open>evaluate({name, {path: p}})\<close> and \<open>evaluate({name, {path: normalize(p)}})\<close> return the
  same verdict and leave the same buckets, where \<open>normalize\<close> is the engine's
  \<open>normalizeValue\<close>.  The hypothesis says of the runtime's NFC normalization that the
  normalized value is in normal form (NFC leaves a string in normal form unchanged, and
  dropping, joining and re-slashing path segments keeps it in normal form).
\<close>

theorem C7_normalization_commutes:
  assumes "normalizeNFC R (normalizeValue R p) = normalizeValue R p"
  shows "evaluate R config bk nowGlobal nowRule
           \<lparr>tc_name = name, tc_arguments = Some [(''path'', JStr p)]\<rparr>
         = evaluate R config bk nowGlobal nowRule
           \<lparr>tc_name = name, tc_arguments = Some [(''path'', JStr (normalizeValue R p))]\<rparr>"
  by (simp add: evaluate_def evaluateRules_path[OF assms])

theorem C7_normalization_commutes_witness:
  "evaluate asciiRuntime blockSshConfig Map.empty 0 0
      \<lparr>tc_name = ''read_file'', tc_arguments = Some [(''path'', JStr traversalPath)]\<rparr>
   = evaluate asciiRuntime blockSshConfig Map.empty 0 0
      \<lparr>tc_name = ''read_file'',
       tc_arguments = Some [(''path'', JStr (normalizeValue asciiRuntime traversalPath))]\<rparr>"
proof -
  have h: "normalizeNFC asciiRuntime (normalizeValue asciiRuntime traversalPath)
             = normalizeValue asciiRuntime traversalPath"
    by (simp add: asciiRuntime_def)
  show ?thesis by (rule C7_normalization_commutes[OF h])
qed

subsection \<open>Tool names are matched exactly\<close>






subsection \<open>Claim C1\<close>




subsection \<open>Sequences of calls and the rate-limit buckets\<close>



















subsection \<open>The rate limiter within one window\<close>





lemma rule_key_not_global: "''rule:'' @ n \<noteq> ''__global__''"
  by simp

















subsection \<open>Claim C6\<close>




subsection \<open>Claim C5\<close>




section \<open>Response scanner (response-scanner.ts)\<close>

subsection \<open>Types\<close>

datatype ResponseAction = Pass | Redact | Block

text \<open>\<open>oversizeAction\<close> has the type \<open>"block" | "redact"\<close>.\<close>

datatype OversizeAction = OversizeBlock | OversizeRedact


record ResponsePattern =
  p_name :: string
  p_pattern :: string
  p_flags :: "string option"
  p_action :: ResponseAction
  p_message :: "string option"
  p_category :: "string option"

text \<open>The configuration as the caller passes it (every field optional) and as the
  constructor resolves it.\<close>

record ResponseScannerConfig =
  o_enabled :: "bool option"
  o_maxResponseSize :: "int option"
  o_oversizeAction :: "OversizeAction option"
  o_detectSecrets :: "bool option"
  o_detectPII :: "bool option"
  o_base64Action :: "ResponseAction option"
  o_maxPatterns :: "int option"
  o_patterns :: "ResponsePattern list option"

record ResolvedConfig =
  enabled :: bool
  maxResponseSize :: int
  oversizeAction :: OversizeAction
  detectSecrets :: bool
  detectPII :: bool
  base64Action :: ResponseAction
  maxPatterns :: int
  patterns :: "ResponsePattern list"

record ScanFinding =
  f_pattern :: string
  f_category :: string
  f_action :: ResponseAction
  f_message :: string
  f_matchCount :: nat
  f_preview :: "string option"

record ScanResult =
  clean :: bool
  action :: ResponseAction
  findings :: "ScanFinding list"
  redactedText :: "string option"
  originalSize :: nat

text \<open>
  The regular expressions of the JavaScript runtime are a parameter of the model:
  \<^item> \<open>re_compiles p flags\<close>: \<open>new RegExp(p, flags)\<close> does not throw;
  \<^item> \<open>re_dangerous p\<close>: one of the three \<open>REDOS_DANGEROUS_PATTERNS\<close> tests true on \<open>p\<close>;
  \<^item> \<open>re_match p flags text\<close>: the array \<open>text.match(regex)\<close>, empty for \<open>null\<close>;
  \<^item> \<open>re_replace p flags text by\<close>: \<open>text.replace(regex, by)\<close>.
\<close>

record regex_engine =
  re_compiles :: "string \<Rightarrow> string \<Rightarrow> bool"
  re_dangerous :: "string \<Rightarrow> bool"
  re_match :: "string \<Rightarrow> string \<Rightarrow> string \<Rightarrow> string list"
  re_replace :: "string \<Rightarrow> string \<Rightarrow> string \<Rightarrow> string \<Rightarrow> string"

record ResponseScanner =
  config :: ResolvedConfig
  compiledPatterns :: "ResponsePattern list"
  rejectedPatterns :: "string list"

subsection \<open>ReDoS protection\<close>

definition MAX_PATTERN_LENGTH :: nat where
  "MAX_PATTERN_LENGTH = 1000"

definition DEFAULT_MAX_PATTERNS :: int where
  "DEFAULT_MAX_PATTERNS = 100"

definition isRegexSafe :: "regex_engine \<Rightarrow> string \<Rightarrow> bool" where
  "isRegexSafe E pattern =
     (if length pattern > MAX_PATTERN_LENGTH then False
      else if re_dangerous E pattern then False
      else re_compiles E pattern [])"

subsection \<open>Built-in patterns\<close>

text \<open>The regular expressions are the strings of the source, with the backslash and the
  two quote characters spelled out.\<close>

definition bs :: string where
  "bs = [backslash]"

definition sq :: string where
  "sq = [CHR 0x27]"

definition builtin ::
  "string \<Rightarrow> string \<Rightarrow> string option \<Rightarrow> ResponseAction \<Rightarrow> string \<Rightarrow> string \<Rightarrow> ResponsePattern" where
  "builtin name pattern flags act message category =
     \<lparr>p_name = name, p_pattern = pattern, p_flags = flags, p_action = act,
      p_message = Some message, p_category = Some category\<rparr>"

definition SECRET_PATTERNS :: "ResponsePattern list" where
  "SECRET_PATTERNS =
     [builtin ''aws-access-key'' ''(?:^|[^A-Za-z0-9])AKIA[0-9A-Z]{16}(?:[^A-Za-z0-9]|$)'' None Redact
        ''AWS Access Key ID detected in response'' ''secrets'',
      builtin ''aws-secret-key''
        (''(?:aws_secret_access_key|aws_secret_key|secret_access_key)'' @ bs @ ''s*[=:]'' @ bs
           @ ''s*[A-Za-z0-9/+=]{40}'')
        (Some ''gi'') Redact ''AWS Secret Access Key detected in response'' ''secrets'',
      builtin ''github-token'' ''(?:ghp|gho|ghu|ghs|ghr)_[A-Za-z0-9_]{36,255}'' None Redact
        ''GitHub token detected in response'' ''secrets'',
      builtin ''openai-api-key'' ''sk-[A-Za-z0-9]{20}T3BlbkFJ[A-Za-z0-9]{20}'' None Redact
        ''OpenAI API key detected in response'' ''secrets'',
      builtin ''generic-api-key''
        (''(?:api[_-]?key|apikey|api[_-]?secret)'' @ bs @ ''s*[=:]+'' @ bs @ ''s*['' @ dquote @ sq
           @ '']?[A-Za-z0-9_'' @ bs @ ''-]{20,}'')
        (Some ''gi'') Redact ''Generic API key detected in response'' ''secrets'',
      builtin ''bearer-token''
        (''Bearer'' @ bs @ ''s+[A-Za-z0-9'' @ bs @ ''-._~+/]+=*'')
        (Some ''gi'') Redact ''Bearer token detected in response'' ''secrets'',
      builtin ''jwt-token''
        (''eyJ[A-Za-z0-9_-]{10,}'' @ bs @ ''.eyJ[A-Za-z0-9_-]{10,}'' @ bs @ ''.[A-Za-z0-9_'' @ bs
           @ ''-]{10,}'')
        None Redact ''JWT token detected in response'' ''secrets'',
      builtin ''private-key'' ''-----BEGIN (?:RSA |EC |DSA |OPENSSH )?PRIVATE KEY-----'' None Block
        ''Private key detected in response - blocking entirely'' ''secrets'',
      builtin ''certificate'' ''-----BEGIN CERTIFICATE-----'' None Redact
        ''Certificate detected in response'' ''secrets'',
      builtin ''database-url''
        (''(?:postgres|mysql|mongodb|redis|amqp)://[^'' @ bs @ ''s'' @ dquote @ sq @ '']+:[^'' @ bs
           @ ''s'' @ dquote @ sq @ '']+@[^'' @ bs @ ''s'' @ dquote @ sq @ '']+'')
        (Some ''gi'') Redact ''Database connection string with credentials detected'' ''secrets'',
      builtin ''password-assignment''
        (''(?:password|passwd|pwd)'' @ bs @ ''s*[=:]'' @ bs @ ''s*['' @ dquote @ sq @ '']?[^'' @ bs
           @ ''s'' @ dquote @ sq @ '']{8,}'')
        (Some ''gi'') Redact ''Password assignment detected in response'' ''secrets'']"

definition getExfiltrationPatterns :: "ResponseAction \<Rightarrow> ResponsePattern list" where
  "getExfiltrationPatterns b64 =
     [builtin ''large-base64-blob'' ''(?:[A-Za-z0-9+/]{100,}={0,2})'' None b64
        ''Large base64-encoded blob detected'' ''exfiltration'',
      builtin ''hex-dump'' (''(?:[0-9a-f]{2}[:'' @ bs @ ''s]){32,}'') (Some ''gi'') Pass
        ''Large hex dump detected (informational)'' ''exfiltration'']"

definition PII_PATTERNS :: "ResponsePattern list" where
  "PII_PATTERNS =
     [builtin ''email-address''
        (''[a-zA-Z0-9._%+'' @ bs @ ''-]+@[a-zA-Z0-9.'' @ bs @ ''-]+'' @ bs @ ''.[a-zA-Z]{2,}'')
        None Redact ''Email address detected in response'' ''pii'',
      builtin ''phone-number''
        (''(?:'' @ bs @ ''+?1['' @ bs @ ''s.-]?)?'' @ bs @ ''(?[0-9]{3}'' @ bs @ '')?['' @ bs
           @ ''s.-]?[0-9]{3}['' @ bs @ ''s.-]?[0-9]{4}'')
        None Redact ''Phone number detected in response'' ''pii'',
      builtin ''ssn'' (bs @ ''b'' @ bs @ ''d{3}-'' @ bs @ ''d{2}-'' @ bs @ ''d{4}'' @ bs @ ''b'')
        None Block ''Social Security Number detected - blocking response'' ''pii'',
      builtin ''credit-card''
        (bs @ ''b(?:4[0-9]{12}(?:[0-9]{3})?|5[1-5][0-9]{14}|3[47][0-9]{13}|6(?:011|5[0-9]{2})[0-9]{12})''
           @ bs @ ''b'')
        None Block ''Credit card number detected - blocking response'' ''pii'',
      builtin ''ip-address''
        (bs @ ''b(?:(?:25[0-5]|2[0-4][0-9]|[01]?[0-9][0-9]?)'' @ bs
           @ ''.){3}(?:25[0-5]|2[0-4][0-9]|[01]?[0-9][0-9]?)'' @ bs @ ''b'')
        None Pass ''IP address detected (informational)'' ''pii'']"

subsection \<open>Pattern compilation\<close>

definition resolveConfig :: "ResponseScannerConfig \<Rightarrow> ResolvedConfig" where
  "resolveConfig c =
     \<lparr>enabled = (case o_enabled c of None \<Rightarrow> True | Some b \<Rightarrow> b),
      maxResponseSize = (case o_maxResponseSize c of None \<Rightarrow> 0 | Some n \<Rightarrow> n),
      oversizeAction = (case o_oversizeAction c of None \<Rightarrow> OversizeRedact | Some a \<Rightarrow> a),
      detectSecrets = (case o_detectSecrets c of None \<Rightarrow> True | Some b \<Rightarrow> b),
      detectPII = (case o_detectPII c of None \<Rightarrow> False | Some b \<Rightarrow> b),
      base64Action = (case o_base64Action c of None \<Rightarrow> Pass | Some a \<Rightarrow> a),
      maxPatterns = (case o_maxPatterns c of None \<Rightarrow> DEFAULT_MAX_PATTERNS | Some n \<Rightarrow> n),
      patterns = (case o_patterns c of None \<Rightarrow> [] | Some ps \<Rightarrow> ps)\<rparr>"

definition patternFlags :: "ResponsePattern \<Rightarrow> string" where
  "patternFlags p = (case p_flags p of None \<Rightarrow> ''gi'' | Some f \<Rightarrow> f)"

text \<open>\<open>safeCompile(pattern, trusted)\<close> on the two lists it appends to.\<close>

definition safeCompile ::
  "regex_engine \<Rightarrow> ResponsePattern list \<times> string list \<Rightarrow> ResponsePattern \<Rightarrow> bool
     \<Rightarrow> ResponsePattern list \<times> string list" where
  "safeCompile E st pattern trusted =
     (if \<not> trusted \<and> \<not> isRegexSafe E (p_pattern pattern)
      then (fst st, snd st @ [''Pattern '' @ dquote @ p_name pattern @ dquote
                               @ '' rejected: potentially unsafe regex (ReDoS risk)''])
      else if re_compiles E (p_pattern pattern) (patternFlags pattern)
      then (fst st @ [pattern], snd st)
      else (fst st, snd st @ [''Pattern '' @ dquote @ p_name pattern @ dquote
                               @ '' rejected: invalid regex'']))"

definition compileAll ::
  "regex_engine \<Rightarrow> bool \<Rightarrow> ResponsePattern list \<Rightarrow> ResponsePattern list \<times> string list
     \<Rightarrow> ResponsePattern list \<times> string list" where
  "compileAll E trusted ps st = foldl (\<lambda>acc p. safeCompile E acc p trusted) st ps"

text \<open>\<open>userPatterns.slice(0, maxAllowed)\<close>: a negative end counts from the end.\<close>

definition sliceTo :: "'a list \<Rightarrow> int \<Rightarrow> 'a list" where
  "sliceTo xs n = (if 0 \<le> n then take (nat n) xs else take (length xs - nat (- n)) xs)"

definition compilePatterns :: "regex_engine \<Rightarrow> ResolvedConfig \<Rightarrow> ResponsePattern list \<times> string list" where
  "compilePatterns E c =
     (let st0 = ([], []);
          st1 = (if detectSecrets c then compileAll E True SECRET_PATTERNS st0 else st0);
          st2 = (if detectSecrets c
                 then compileAll E True (getExfiltrationPatterns (base64Action c)) st1 else st1);
          st3 = (if detectPII c then compileAll E True PII_PATTERNS st2 else st2);
          userPatterns = patterns c;
          maxAllowed = maxPatterns c;
          limited = sliceTo userPatterns maxAllowed;
          st4 = (if int (length userPatterns) > maxAllowed
                 then (fst st3, snd st3 @ [showInt (int (length userPatterns) - maxAllowed)
                         @ '' patterns exceeded max limit of '' @ showInt maxAllowed])
                 else st3)
      in compileAll E False limited st4)"

definition newResponseScanner :: "regex_engine \<Rightarrow> ResponseScannerConfig \<Rightarrow> ResponseScanner" where
  "newResponseScanner E c =
     (let rc = resolveConfig c; st = compilePatterns E rc
      in \<lparr>config = rc, compiledPatterns = fst st, rejectedPatterns = snd st\<rparr>)"

subsection \<open>Scanning and redaction\<close>














subsection \<open>An engine for patterns without metacharacters\<close>

text \<open>
  For a pattern that is a plain word the regular expression matches the occurrences of
  that word, from left to right and without overlap, ignoring case under the flag \<open>i\<close>;
  with the flag \<open>g\<close> \<open>match\<close> returns all of them and \<open>replace\<close> replaces all of
  them, without it the first one.  Such a pattern compiles and has none of the dangerous
  shapes.  This engine runs the scanner on the custom patterns of the repository's tests.
\<close>

definition litPrefix :: "string \<Rightarrow> string \<Rightarrow> string \<Rightarrow> bool" where
  "litPrefix flags pat text =
     (length pat \<le> length text
      \<and> (if CHR ''i'' \<in> set flags
         then map toLowerChar pat = map toLowerChar (take (length pat) text)
         else pat = take (length pat) text))"

fun litFindAll :: "string \<Rightarrow> string \<Rightarrow> string \<Rightarrow> string list" where
  "litFindAll flags pat [] = []"
| "litFindAll flags pat (c # cs) =
     (if litPrefix flags pat (c # cs)
      then take (length pat) (c # cs) # litFindAll flags pat (drop (length pat - 1) cs)
      else litFindAll flags pat cs)"

fun litReplaceAll :: "string \<Rightarrow> string \<Rightarrow> string \<Rightarrow> string \<Rightarrow> string" where
  "litReplaceAll flags pat by [] = []"
| "litReplaceAll flags pat by (c # cs) =
     (if litPrefix flags pat (c # cs)
      then by @ litReplaceAll flags pat by (drop (length pat - 1) cs)
      else c # litReplaceAll flags pat by cs)"

fun litReplaceFirst :: "string \<Rightarrow> string \<Rightarrow> string \<Rightarrow> string \<Rightarrow> string" where
  "litReplaceFirst flags pat by [] = []"
| "litReplaceFirst flags pat by (c # cs) =
     (if litPrefix flags pat (c # cs) then by @ drop (length pat - 1) cs
      else c # litReplaceFirst flags pat by cs)"

definition litMatch :: "string \<Rightarrow> string \<Rightarrow> string \<Rightarrow> string list" where
  "litMatch pat flags text =
     (if pat = [] then (if CHR ''g'' \<in> set flags then replicate (Suc (length text)) [] else [[]])
      else if CHR ''g'' \<in> set flags then litFindAll flags pat text
      else take 1 (litFindAll flags pat text))"

definition litReplace :: "string \<Rightarrow> string \<Rightarrow> string \<Rightarrow> string \<Rightarrow> string" where
  "litReplace pat flags text by =
     (if pat = []
      then (if CHR ''g'' \<in> set flags then by @ concat (map (\<lambda>c. c # by) text) else by @ text)
      else if CHR ''g'' \<in> set flags then litReplaceAll flags pat by text
      else litReplaceFirst flags pat by text)"

definition literalEngine :: regex_engine where
  "literalEngine =
     \<lparr>re_compiles = (\<lambda>p flags. True), re_dangerous = (\<lambda>p. False),
      re_match = litMatch, re_replace = litReplace\<rparr>"

subsection \<open>Example scanners\<close>

text \<open>
  Configurations as a caller writes them: \<open>{ detectSecrets: false }\<close>, \<open>{}\<close> and
  \<open>{ base64Action: "redact" }\<close>; and a scanner without built-in patterns that redacts
  one word, with a size limit (0 for none), as the repository's tests of custom patterns
  build it.
\<close>

definition secretsOffConfig :: ResponseScannerConfig where
  "secretsOffConfig =
     \<lparr>o_enabled = None, o_maxResponseSize = None, o_oversizeAction = None,
      o_detectSecrets = Some False, o_detectPII = None, o_base64Action = None,
      o_maxPatterns = None, o_patterns = None\<rparr>"

definition defaultsConfig :: ResponseScannerConfig where
  "defaultsConfig = secretsOffConfig\<lparr>o_detectSecrets := None\<rparr>"

definition base64RedactConfig :: ResponseScannerConfig where
  "base64RedactConfig = defaultsConfig\<lparr>o_base64Action := Some Redact\<rparr>"


subsection \<open>What \<open>compilePatterns\<close> compiles\<close>

lemma safeCompile_mono: "set (fst st) \<subseteq> set (fst (safeCompile E st p t))"
  by (auto simp: safeCompile_def)

lemma safeCompile_subset: "set (fst (safeCompile E st p t)) \<subseteq> set (fst st) \<union> {p}"
  by (auto simp: safeCompile_def)

lemma safeCompile_trusted:
  "re_compiles E (p_pattern p) (patternFlags p) \<Longrightarrow> p \<in> set (fst (safeCompile E st p True))"
  by (simp add: safeCompile_def)

lemma compileAll_mono: "set (fst st) \<subseteq> set (fst (compileAll E t ps st))"
proof (induction ps arbitrary: st)
  case Nil
  show ?case by (simp add: compileAll_def)
next
  case (Cons p ps)
  from Cons.IH[of "safeCompile E st p t"] safeCompile_mono[of st E p t]
  show ?case by (auto simp: compileAll_def)
qed

lemma compileAll_subset: "set (fst (compileAll E t ps st)) \<subseteq> set (fst st) \<union> set ps"
proof (induction ps arbitrary: st)
  case Nil
  show ?case by (simp add: compileAll_def)
next
  case (Cons p ps)
  from Cons.IH[of "safeCompile E st p t"] safeCompile_subset[of E st p t]
  show ?case by (auto simp: compileAll_def)
qed

lemma compileAll_trusted:
  assumes "p \<in> set ps" "re_compiles E (p_pattern p) (patternFlags p)"
  shows "p \<in> set (fst (compileAll E True ps st))"
  using assms(1)
proof (induction ps arbitrary: st)
  case Nil
  then show ?case by simp
next
  case (Cons q ps)
  show ?case
  proof (cases "p = q")
    case True
    have "p \<in> set (fst (safeCompile E st q True))"
      using True assms(2) by (simp add: safeCompile_trusted)
    then show ?thesis
      using compileAll_mono[of "safeCompile E st q True" E True ps]
      by (auto simp: compileAll_def)
  next
    case False
    with Cons.prems have "p \<in> set ps" by simp
    from Cons.IH[OF this, of "safeCompile E st q True"]
    show ?thesis by (simp add: compileAll_def)
  qed
qed

lemma sliceTo_subset: "set (sliceTo xs n) \<subseteq> set xs"
  by (auto simp: sliceTo_def dest: in_set_takeD)

lemma compilePatterns_with_secrets:
  assumes "detectSecrets c" "p \<in> set (getExfiltrationPatterns (base64Action c))"
    "re_compiles E (p_pattern p) (patternFlags p)"
  shows "p \<in> set (fst (compilePatterns E c))"
proof -
  let ?st1 = "compileAll E True SECRET_PATTERNS ([], [])"
  let ?st2 = "compileAll E True (getExfiltrationPatterns (base64Action c)) ?st1"
  have a: "p \<in> set (fst ?st2)" by (rule compileAll_trusted[OF assms(2,3)])
  have m1: "\<And>st. set (fst st) \<subseteq> set (fst (if detectPII c then compileAll E True PII_PATTERNS st else st))"
    using compileAll_mono by simp
  show ?thesis
    unfolding compilePatterns_def Let_def
    using a assms(1) m1[of ?st2] compileAll_mono
    by (simp add: subset_iff)
qed

lemma compilePatterns_without_secrets:
  assumes "\<not> detectSecrets c"
  shows "set (fst (compilePatterns E c)) \<subseteq> set PII_PATTERNS \<union> set (patterns c)"
proof -
  define st3 where
    "st3 = (if detectPII c then compileAll E True PII_PATTERNS ([], []) else ([], []))"
  define st4 where
    "st4 = (if int (length (patterns c)) > maxPatterns c
            then (fst st3, snd st3 @ [showInt (int (length (patterns c)) - maxPatterns c)
                    @ '' patterns exceeded max limit of '' @ showInt (maxPatterns c)])
            else st3)"
  have eq: "compilePatterns E c = compileAll E False (sliceTo (patterns c) (maxPatterns c)) st4"
    using assms by (simp add: compilePatterns_def Let_def st3_def st4_def)
  have s3: "set (fst st3) \<subseteq> set PII_PATTERNS"
    using compileAll_subset[of E True PII_PATTERNS "([], [])"] by (auto simp: st3_def)
  have s4: "fst st4 = fst st3" by (simp add: st4_def)
  have "set (fst (compilePatterns E c))
          \<subseteq> set (fst st4) \<union> set (sliceTo (patterns c) (maxPatterns c))"
    unfolding eq by (rule compileAll_subset)
  with s3 s4 sliceTo_subset[of "patterns c" "maxPatterns c"] show ?thesis by auto
qed

subsection \<open>Claim C4\<close>

text \<open>
  C4 as stated: for every scanner configuration the compiled pattern set contains
  \<open>large-base64-blob\<close> and \<open>hex-dump\<close>, also when \<open>detectSecrets\<close> is false.  In
  \<open>compilePatterns\<close> the loop over \<open>getExfiltrationPatterns\<close> stands under
  \<open>if (this.config.detectSecrets)\<close>: a scanner constructed with
  \<open>{ detectSecrets: false }\<close> compiles no pattern at all.
\<close>

theorem C4_counterexample:
  "compiledPatterns (newResponseScanner literalEngine secretsOffConfig) = []"
  by code_simp

text \<open>
  C4 amended: for every scanner configuration in which \<open>detectSecrets\<close> is not false, the
  compiled pattern set of \<open>ResponseScanner\<close> contains the built-in exfiltration markers
  \<open>large-base64-blob\<close> (with the action taken from \<open>base64Action\<close>, default pass) and
  \<open>hex-dump\<close> (their two regular expressions compile); when \<open>detectSecrets\<close> is false
  the compiled patterns are among the PII patterns and the user's patterns, so the two
  markers are not active.
\<close>

theorem C4_exfiltration_markers:
  "(o_detectSecrets c \<noteq> Some False
      \<and> list_all (\<lambda>p. re_compiles E (p_pattern p) (patternFlags p)) (getExfiltrationPatterns Pass)
    \<longrightarrow> list_all (\<lambda>p. p \<in> set (compiledPatterns (newResponseScanner E c)))
          (getExfiltrationPatterns (case o_base64Action c of None \<Rightarrow> Pass | Some a \<Rightarrow> a)))
   \<and> (o_detectSecrets c = Some False
    \<longrightarrow> set (compiledPatterns (newResponseScanner E c))
          \<subseteq> set PII_PATTERNS \<union> set (case o_patterns c of None \<Rightarrow> [] | Some ps \<Rightarrow> ps))"
proof (intro conjI impI)
  assume h: "o_detectSecrets c \<noteq> Some False
      \<and> list_all (\<lambda>p. re_compiles E (p_pattern p) (patternFlags p)) (getExfiltrationPatterns Pass)"
  let ?rc = "resolveConfig c"
  have ds: "detectSecrets ?rc"
    using h by (cases "o_detectSecrets c") (auto simp: resolveConfig_def)
  have b: "base64Action ?rc = (case o_base64Action c of None \<Rightarrow> Pass | Some a \<Rightarrow> a)"
    by (simp add: resolveConfig_def)
  have comp: "\<And>p. p \<in> set (getExfiltrationPatterns (base64Action ?rc))
                  \<Longrightarrow> re_compiles E (p_pattern p) (patternFlags p)"
    using h by (auto simp: getExfiltrationPatterns_def builtin_def patternFlags_def)
  have "\<And>p. p \<in> set (getExfiltrationPatterns (base64Action ?rc))
             \<Longrightarrow> p \<in> set (compiledPatterns (newResponseScanner E c))"
    using compilePatterns_with_secrets[OF ds _ comp]
    by (simp add: newResponseScanner_def Let_def)
  then show "list_all (\<lambda>p. p \<in> set (compiledPatterns (newResponseScanner E c)))
          (getExfiltrationPatterns (case o_base64Action c of None \<Rightarrow> Pass | Some a \<Rightarrow> a))"
    unfolding b[symmetric] by (simp add: list_all_iff)
next
  assume h: "o_detectSecrets c = Some False"
  then have "\<not> detectSecrets (resolveConfig c)" by (simp add: resolveConfig_def)
  from compilePatterns_without_secrets[OF this, of E]
  show "set (compiledPatterns (newResponseScanner E c))
          \<subseteq> set PII_PATTERNS \<union> set (case o_patterns c of None \<Rightarrow> [] | Some ps \<Rightarrow> ps)"
    by (simp add: newResponseScanner_def Let_def resolveConfig_def)
qed

theorem C4_exfiltration_markers_witness:
  "list_all (\<lambda>p. p \<in> set (compiledPatterns (newResponseScanner literalEngine base64RedactConfig)))
     (getExfiltrationPatterns Redact)
   \<and> set (compiledPatterns (newResponseScanner literalEngine secretsOffConfig))
       \<subseteq> set PII_PATTERNS \<union> set []"
proof -
  have a: "o_detectSecrets base64RedactConfig \<noteq> Some False
      \<and> list_all (\<lambda>p. re_compiles literalEngine (p_pattern p) (patternFlags p))
           (getExfiltrationPatterns Pass)"
    by (simp add: base64RedactConfig_def defaultsConfig_def secretsOffConfig_def
          literalEngine_def getExfiltrationPatterns_def)
  have b: "o_detectSecrets secretsOffConfig = Some False"
    by (simp add: secretsOffConfig_def)
  from C4_exfiltration_markers[of base64RedactConfig literalEngine] a
  have A: "list_all (\<lambda>p. p \<in> set (compiledPatterns (newResponseScanner literalEngine base64RedactConfig)))
             (getExfiltrationPatterns Redact)"
    by (simp add: base64RedactConfig_def defaultsConfig_def secretsOffConfig_def)
  from C4_exfiltration_markers[of secretsOffConfig literalEngine] b
  have B: "set (compiledPatterns (newResponseScanner literalEngine secretsOffConfig))
             \<subseteq> set PII_PATTERNS \<union> set []"
    by (simp add: secretsOffConfig_def)
  from A B show ?thesis by blast
qed

subsection \<open>The overall action of a scan\<close>











subsection \<open>Claim C8\<close>




section \<open>JSON-RPC messages (types.ts)\<close>

text \<open>
  A parsed message: each of the five properties is present or absent (\<open>"id" in msg\<close> is
  \<open>msg_id msg \<noteq> None\<close>).  The parameters are a JSON object.
\<close>

record JsonRpcMessage =
  msg_id :: "json option"
  msg_method :: "string option"
  msg_params :: "(string \<times> json) list option"
  msg_result :: "json option"
  msg_error :: "json option"

definition isRequest :: "JsonRpcMessage \<Rightarrow> bool" where
  "isRequest msg = (msg_id msg \<noteq> None \<and> msg_method msg \<noteq> None)"

definition isToolCall :: "JsonRpcMessage \<Rightarrow> bool" where
  "isToolCall msg = (isRequest msg \<and> msg_method msg = Some ''tools/call'')"

text \<open>\<open>params.arguments as Record<string, unknown>\<close> is an unchecked cast; the entries of
  a value that is not an object are those \<open>Object.entries\<close> gives.\<close>

definition objectEntries :: "json \<Rightarrow> (string \<times> json) list" where
  "objectEntries v =
     (case v of
        JObj kvs \<Rightarrow> kvs
      | JArr xs \<Rightarrow> zip (map showNat [0..<length xs]) xs
      | JStr s \<Rightarrow> zip (map showNat [0..<length s]) (map (\<lambda>c. JStr [c]) s)
      | _ \<Rightarrow> [])"

definition getToolCallParams :: "JsonRpcMessage \<Rightarrow> ToolCallParams option" where
  "getToolCallParams msg =
     (if msg_method msg \<noteq> Some ''tools/call'' then None
      else (case msg_params msg of
              None \<Rightarrow> None
            | Some params \<Rightarrow>
                (case map_of params ''name'' of
                   Some (JStr name) \<Rightarrow>
                     Some \<lparr>tc_name = name,
                           tc_arguments =
                             Some (case map_of params ''arguments'' of
                                     None \<Rightarrow> []
                                   | Some JNull \<Rightarrow> []
                                   | Some v \<Rightarrow> objectEntries v)\<rparr>
                 | _ \<Rightarrow> None)))"

definition createDenyResponse :: "json \<Rightarrow> string \<Rightarrow> JsonRpcMessage" where
  "createDenyResponse ident message =
     \<lparr>msg_id = Some ident, msg_method = None, msg_params = None, msg_result = None,
      msg_error = Some (JObj [(''code'', JNum (- 32001)),
                              (''message'', JStr (''Agent Wall: '' @ message))])\<rparr>"

section \<open>Stdio proxy: the request path (proxy.ts)\<close>

subsection \<open>State and collaborators\<close>

record ProxyStats =
  forwarded :: nat
  denied :: nat
  prompted :: nat
  total :: nat
  scanned :: nat
  responseBlocked :: nat
  responseRedacted :: nat

datatype ProxyEvent =
    Denied string string
  | Allowed string
  | Prompted string string
  | InjectionDetected string string
  | EgressBlocked string string
  | KillSwitchActive string
  | ChainDetected string string

text \<open>The five stages of the security pipeline; the state keeps the list of the stages
  that ran, next to what the proxy really holds.\<close>

datatype Stage = KillSwitchStage | InjectionStage | EgressStage | PolicyStage | ChainStage

record PendingCall =
  pc_tool :: string
  pc_args :: "(string \<times> json) list"
  pc_timestamp :: int

text \<open>
  \<open>toServer\<close> and \<open>toClient\<close> are the messages written to the child's standard input and
  to the proxy's standard output, \<open>childWritable\<close> is \<open>this.child?.stdin?.writable\<close>,
  \<open>emitted\<close> the events, \<open>logged\<close> the entries handed to the audit logger, \<open>engineBuckets\<close>
  the state of the policy engine and \<open>chainHistory\<close> the calls recorded by the chain
  detector.
\<close>

record ProxyState =
  stats :: ProxyStats
  toServer :: "JsonRpcMessage list"
  toClient :: "JsonRpcMessage list"
  childWritable :: bool
  pendingToolCalls :: "json \<Rightarrow> PendingCall option"
  emitted :: "ProxyEvent list"
  logged :: "AuditEntry list"
  engineBuckets :: buckets
  chainHistory :: "ToolCallParams list"
  stagesRun :: "Stage list"

datatype Confidence = Low | Medium | High

record InjectionScanResult =
  inj_detected :: bool
  inj_confidence :: Confidence
  inj_summary :: string

record EgressCheckResult =
  eg_allowed :: bool
  eg_summary :: string

datatype Severity = SevLow | SevMedium | SevHigh | SevCritical

record ChainDetectionResult =
  ch_detected :: bool
  ch_matches :: "(string \<times> Severity) list"

datatype PromptOutcome = Approved | Rejected | PromptError string

text \<open>
  The options of the proxy.  The injection detector, the egress control and the chain
  detector are given by what they answer (the chain detector from the calls recorded so
  far, the new one last); the prompt handler by the outcome of the promise it returns.
\<close>

record ProxyOptions =
  px_sessionId :: string
  px_runtime :: js_runtime
  px_policy :: PolicyConfig
  px_hasResponseScanner :: bool
  px_killSwitch :: "KillSwitch option"
  px_injectionDetector :: "(ToolCallParams \<Rightarrow> InjectionScanResult) option"
  px_egressControl :: "(ToolCallParams \<Rightarrow> EgressCheckResult) option"
  px_chainDetector :: "(ToolCallParams list \<Rightarrow> ChainDetectionResult) option"
  px_onPrompt :: "(string \<Rightarrow> (string \<times> json) list \<Rightarrow> string \<Rightarrow> PromptOutcome) option"

text \<open>The clock readings taken while one message is handled.\<close>

record Clock =
  isoNow :: string
  msNow :: int
  evalGlobalNow :: int
  evalRuleNow :: int

subsection \<open>Writing and the three outcomes\<close>

definition writeToServer :: "JsonRpcMessage \<Rightarrow> ProxyState \<Rightarrow> ProxyState" where
  "writeToServer msg s = (if \<not> childWritable s then s else s\<lparr>toServer := toServer s @ [msg]\<rparr>)"

definition writeToClient :: "JsonRpcMessage \<Rightarrow> ProxyState \<Rightarrow> ProxyState" where
  "writeToClient msg s = s\<lparr>toClient := toClient s @ [msg]\<rparr>"

definition emit :: "ProxyEvent \<Rightarrow> ProxyState \<Rightarrow> ProxyState" where
  "emit e s = s\<lparr>emitted := emitted s @ [e]\<rparr>"

definition ran :: "Stage \<Rightarrow> ProxyState \<Rightarrow> ProxyState" where
  "ran st s = s\<lparr>stagesRun := stagesRun s @ [st]\<rparr>"

definition requestEntry ::
  "ProxyOptions \<Rightarrow> Clock \<Rightarrow> string \<Rightarrow> (string \<times> json) list \<Rightarrow> PolicyVerdict \<Rightarrow> AuditEntry" where
  "requestEntry opts clk toolName args v =
     \<lparr>timestamp = isoNow clk, sessionId = px_sessionId opts, direction = Request,
      ae_method = ''tools/call'', tool = Some toolName, arguments = Some args, verdict = Some v,
      responsePreview = None, latencyMs = None, error = None\<rparr>"

definition logToAudit :: "AuditEntry \<Rightarrow> ProxyState \<Rightarrow> ProxyState" where
  "logToAudit e s = s\<lparr>logged := logged s @ [e]\<rparr>"

definition requestId :: "JsonRpcMessage \<Rightarrow> json" where
  "requestId request = (case msg_id request of None \<Rightarrow> JNull | Some i \<Rightarrow> i)"

definition handleDeny ::
  "ProxyOptions \<Rightarrow> Clock \<Rightarrow> JsonRpcMessage \<Rightarrow> string \<Rightarrow> (string \<times> json) list \<Rightarrow> PolicyVerdict
     \<Rightarrow> ProxyState \<Rightarrow> ProxyState" where
  "handleDeny opts clk request toolName args v s =
     (let s1 = s\<lparr>stats := (stats s)\<lparr>denied := denied (stats s) + 1\<rparr>\<rparr>;
          s2 = logToAudit (requestEntry opts clk toolName args (v\<lparr>v_action := Deny\<rparr>)) s1;
          s3 = emit (Denied toolName (v_message v)) s2
      in writeToClient (createDenyResponse (requestId request) (v_message v)) s3)"

definition handleAllow ::
  "ProxyOptions \<Rightarrow> Clock \<Rightarrow> JsonRpcMessage \<Rightarrow> string \<Rightarrow> (string \<times> json) list \<Rightarrow> PolicyVerdict
     \<Rightarrow> ProxyState \<Rightarrow> ProxyState" where
  "handleAllow opts clk request toolName args v s =
     (let s1 = s\<lparr>stats := (stats s)\<lparr>forwarded := forwarded (stats s) + 1\<rparr>\<rparr>;
          s2 = (if px_hasResponseScanner opts
                then s1\<lparr>pendingToolCalls := (pendingToolCalls s1)
                          (requestId request \<mapsto>
                             \<lparr>pc_tool = toolName, pc_args = args, pc_timestamp = msNow clk\<rparr>)\<rparr>
                else s1);
          s3 = logToAudit (requestEntry opts clk toolName args (v\<lparr>v_action := Allow\<rparr>)) s2;
          s4 = emit (Allowed toolName) s3
      in writeToServer request s4)"

definition handlePrompt ::
  "ProxyOptions \<Rightarrow> Clock \<Rightarrow> JsonRpcMessage \<Rightarrow> string \<Rightarrow> (string \<times> json) list \<Rightarrow> PolicyVerdict
     \<Rightarrow> ProxyState \<Rightarrow> ProxyState" where
  "handlePrompt opts clk request toolName args v s =
     (let s1 = emit (Prompted toolName (v_message v)) s
      in case px_onPrompt opts of
           None \<Rightarrow>
             handleDeny opts clk request toolName args
               (v\<lparr>v_action := Deny,
                   v_message := v_message v @ '' (auto-denied: no prompt handler)''\<rparr>) s1
         | Some onPrompt \<Rightarrow>
             (case onPrompt toolName args (v_message v) of
                Approved \<Rightarrow>
                  handleAllow opts clk request toolName args
                    (v\<lparr>v_action := Allow, v_message := v_message v @ '' (manually approved)''\<rparr>) s1
              | Rejected \<Rightarrow>
                  handleDeny opts clk request toolName args
                    (v\<lparr>v_action := Deny, v_message := v_message v @ '' (manually denied)''\<rparr>) s1
              | PromptError err \<Rightarrow>
                  handleDeny opts clk request toolName args
                    (v\<lparr>v_action := Deny,
                        v_message := v_message v @ '' (prompt error: '' @ err @ '')''\<rparr>) s1))"

subsection \<open>The request pipeline\<close>

definition killSwitchReason :: "KillSwitch \<Rightarrow> string" where
  "killSwitchReason ks = (if isActive ks then activeReason ks else ''inactive'')"

definition severityWord :: "Severity \<Rightarrow> string" where
  "severityWord sev =
     (case sev of SevLow \<Rightarrow> ''low'' | SevMedium \<Rightarrow> ''medium'' | SevHigh \<Rightarrow> ''high''
      | SevCritical \<Rightarrow> ''critical'')"

definition chainSummary :: "(string \<times> Severity) list \<Rightarrow> string" where
  "chainSummary ms = joinWith '', '' (map (\<lambda>m. fst m @ ''('' @ severityWord (snd m) @ '')'') ms)"

definition internalDeny :: "string \<Rightarrow> string \<Rightarrow> PolicyVerdict" where
  "internalDeny ruleId message = \<lparr>v_action = Deny, v_rule = Some ruleId, v_message = message\<rparr>"

text \<open>Steps 4 and 5 and the final switch: the policy engine, the chain detector, the
  execution of the verdict.\<close>

definition policyAndChain ::
  "ProxyOptions \<Rightarrow> Clock \<Rightarrow> JsonRpcMessage \<Rightarrow> ToolCallParams \<Rightarrow> (string \<times> json) list
     \<Rightarrow> ProxyState \<Rightarrow> ProxyState" where
  "policyAndChain opts clk request toolCall args s =
     (let ev = evaluate (px_runtime opts) (px_policy opts) (engineBuckets s)
                 (evalGlobalNow clk) (evalRuleNow clk) toolCall;
          v = fst ev;
          s1 = ran PolicyStage (s\<lparr>engineBuckets := snd ev\<rparr>);
          execute = (\<lambda>st. case v_action v of
                             Allow \<Rightarrow> handleAllow opts clk request (tc_name toolCall) args v st
                           | Deny \<Rightarrow> handleDeny opts clk request (tc_name toolCall) args v st
                           | Prompt \<Rightarrow> handlePrompt opts clk request (tc_name toolCall) args v st)
      in case px_chainDetector opts of
           None \<Rightarrow> execute s1
         | Some record_call \<Rightarrow>
             if v_action v = Deny then execute s1
             else (let history = chainHistory s1 @ [toolCall];
                       chain = record_call history;
                       s2 = ran ChainStage (s1\<lparr>chainHistory := history\<rparr>)
                   in if \<not> ch_detected chain then execute s2
                      else (let critical = list_ex (\<lambda>m. snd m = SevCritical) (ch_matches chain);
                                summary = chainSummary (ch_matches chain);
                                s3 = emit (ChainDetected (tc_name toolCall) summary) s2
                            in if critical
                               then handleDeny opts clk request (tc_name toolCall) args
                                      (internalDeny ''__chain_detector__''
                                         (''Critical tool chain blocked: '' @ summary)) s3
                               else execute
                                      (logToAudit
                                         (requestEntry opts clk (tc_name toolCall) args
                                            \<lparr>v_action = Allow, v_rule = Some ''__chain_detector__'',
                                             v_message = ''Suspicious tool chain (warning): ''
                                                         @ summary\<rparr>) s3))))"

definition egressThenPolicy ::
  "ProxyOptions \<Rightarrow> Clock \<Rightarrow> JsonRpcMessage \<Rightarrow> ToolCallParams \<Rightarrow> (string \<times> json) list
     \<Rightarrow> ProxyState \<Rightarrow> ProxyState" where
  "egressThenPolicy opts clk request toolCall args s =
     (case px_egressControl opts of
        None \<Rightarrow> policyAndChain opts clk request toolCall args s
      | Some check \<Rightarrow>
          (let egress = check toolCall; s1 = ran EgressStage s
           in if \<not> eg_allowed egress
              then handleDeny opts clk request (tc_name toolCall) args
                     (internalDeny ''__egress_control__'' (''Egress blocked: '' @ eg_summary egress))
                     (emit (EgressBlocked (tc_name toolCall) (eg_summary egress)) s1)
              else policyAndChain opts clk request toolCall args s1))"

definition injectionThenEgress ::
  "ProxyOptions \<Rightarrow> Clock \<Rightarrow> JsonRpcMessage \<Rightarrow> ToolCallParams \<Rightarrow> (string \<times> json) list
     \<Rightarrow> ProxyState \<Rightarrow> ProxyState" where
  "injectionThenEgress opts clk request toolCall args s =
     (case px_injectionDetector opts of
        None \<Rightarrow> egressThenPolicy opts clk request toolCall args s
      | Some scan_call \<Rightarrow>
          (let injection = scan_call toolCall; s1 = ran InjectionStage s
           in if inj_detected injection \<and> inj_confidence injection \<noteq> Low
              then handleDeny opts clk request (tc_name toolCall) args
                     (internalDeny ''__injection_detector__''
                        (''Prompt injection blocked: '' @ inj_summary injection))
                     (emit (InjectionDetected (tc_name toolCall) (inj_summary injection)) s1)
              else egressThenPolicy opts clk request toolCall args s1))"

definition handleClientMessage ::
  "ProxyOptions \<Rightarrow> Clock \<Rightarrow> JsonRpcMessage \<Rightarrow> ProxyState \<Rightarrow> ProxyState" where
  "handleClientMessage opts clk msg s =
     (let s0 = s\<lparr>stats := (stats s)\<lparr>total := total (stats s) + 1\<rparr>\<rparr>
      in if \<not> isToolCall msg then writeToServer msg s0
         else (case getToolCallParams msg of
                 None \<Rightarrow> writeToServer msg s0
               | Some toolCall \<Rightarrow>
                   (let args = (case tc_arguments toolCall of None \<Rightarrow> [] | Some a \<Rightarrow> a)
                    in case px_killSwitch opts of
                         None \<Rightarrow> injectionThenEgress opts clk msg toolCall args s0
                       | Some ks \<Rightarrow>
                           (let s1 = ran KillSwitchStage s0
                            in if isActive ks
                               then handleDeny opts clk msg (tc_name toolCall) args
                                      (internalDeny ''__kill_switch__''
                                         (''Kill switch active: '' @ killSwitchReason ks
                                            @ ''. All tool calls denied.''))
                                      (emit (KillSwitchActive (tc_name toolCall)) s1)
                               else injectionThenEgress opts clk msg toolCall args s1))))"

subsection \<open>Pass-through of what the pipeline does not handle\<close>

definition hasStringName :: "(string \<times> json) list \<Rightarrow> bool" where
  "hasStringName params = (case map_of params ''name'' of Some (JStr n) \<Rightarrow> True | _ \<Rightarrow> False)"

text \<open>A message with method \<open>tools/call\<close> whose parameters are absent or carry no string
  \<open>name\<close>.\<close>

definition malformedToolCall :: "JsonRpcMessage \<Rightarrow> bool" where
  "malformedToolCall msg =
     (msg_method msg = Some ''tools/call'' \<and>
      (case msg_params msg of None \<Rightarrow> True | Some params \<Rightarrow> \<not> hasStringName params))"

text \<open>The effect of the first statement of \<open>handleClientMessage\<close>.\<close>

definition counted :: "ProxyState \<Rightarrow> ProxyState" where
  "counted s = s\<lparr>stats := (stats s)\<lparr>total := total (stats s) + 1\<rparr>\<rparr>"

definition idleProxy :: ProxyState where
  "idleProxy =
     \<lparr>stats = \<lparr>forwarded = 0, denied = 0, prompted = 0, total = 0, scanned = 0,
               responseBlocked = 0, responseRedacted = 0\<rparr>,
      toServer = [], toClient = [], childWritable = True, pendingToolCalls = (\<lambda>_. None),
      emitted = [], logged = [], engineBuckets = (\<lambda>_. None), chainHistory = [],
      stagesRun = []\<rparr>"

definition noon :: Clock where
  "noon = \<lparr>isoNow = ''2026-01-01T12:00:00.000Z'', msNow = 1000, evalGlobalNow = 1000,
           evalRuleNow = 1000\<rparr>"

definition denyAllConfig :: PolicyConfig where
  "denyAllConfig =
     \<lparr>c_mode = None, c_defaultAction = Some Deny, c_globalRateLimit = None, c_rules = []\<rparr>"

text \<open>A proxy in which every stage would deny: the kill switch is active, the detectors
  all fire, the policy denies by default.\<close>

definition lockedDown :: ProxyOptions where
  "lockedDown =
     \<lparr>px_sessionId = ''s1'', px_runtime = asciiRuntime, px_policy = denyAllConfig,
      px_hasResponseScanner = True,
      px_killSwitch =
        Some \<lparr>ks_enabled = True, ks_checkFile = False, ks_killFileNames = [], ks_checkDirs = [],
              manuallyActive = True, fileActive = False, activeReason = ''emergency'',
              activatedAt = Some ''2026-01-01T11:59:00.000Z''\<rparr>,
      px_injectionDetector =
        Some (\<lambda>_. \<lparr>inj_detected = True, inj_confidence = High, inj_summary = ''injection''\<rparr>),
      px_egressControl = Some (\<lambda>_. \<lparr>eg_allowed = False, eg_summary = ''blocked''\<rparr>),
      px_chainDetector =
        Some (\<lambda>_. \<lparr>ch_detected = True, ch_matches = [(''exfil'', SevCritical)]\<rparr>),
      px_onPrompt = None\<rparr>"

definition listTools :: JsonRpcMessage where
  "listTools = \<lparr>msg_id = Some (JNum 1), msg_method = Some ''tools/list'', msg_params = None,
                msg_result = None, msg_error = None\<rparr>"

definition namelessCall :: JsonRpcMessage where
  "namelessCall = \<lparr>msg_id = Some (JNum 7), msg_method = Some ''tools/call'',
                   msg_params = Some [(''name'', JNum 42), (''arguments'', JObj [])],
                   msg_result = None, msg_error = None\<rparr>"

definition shellCall :: JsonRpcMessage where
  "shellCall = \<lparr>msg_id = Some (JNum 8), msg_method = Some ''tools/call'',
                msg_params = Some [(''name'', JStr ''shell_exec''), (''arguments'', JObj [])],
                msg_result = None, msg_error = None\<rparr>"

lemma getToolCallParams_None_iff:
  "getToolCallParams msg = None
     \<longleftrightarrow> msg_method msg \<noteq> Some ''tools/call'' \<or> malformedToolCall msg"
  by (auto simp: malformedToolCall_def getToolCallParams_def hasStringName_def
           split: option.splits json.splits)

lemma passThrough:
  "\<not> isToolCall msg \<or> getToolCallParams msg = None \<Longrightarrow>
   handleClientMessage opts clk msg s = writeToServer msg (counted s)"
  by (auto simp: handleClientMessage_def counted_def Let_def)

text \<open>For contrast: under the same options a well-formed call stops at the kill switch,
  is answered with the error \<open>-32001\<close> and never reaches the child.\<close>

lemma shellCall_denied:
  "stagesRun (handleClientMessage lockedDown noon shellCall idleProxy) = [KillSwitchStage]
   \<and> toServer (handleClientMessage lockedDown noon shellCall idleProxy) = []
   \<and> toClient (handleClientMessage lockedDown noon shellCall idleProxy)
       = [createDenyResponse (JNum 8)
            ''Kill switch active: emergency. All tool calls denied.'']"
  by (simp add: handleClientMessage_def isToolCall_def isRequest_def getToolCallParams_def
        shellCall_def lockedDown_def idleProxy_def isActive_def handleDeny_def ran_def emit_def
        logToAudit_def writeToClient_def requestId_def internalDeny_def killSwitchReason_def
        objectEntries_def Let_def)

subsection \<open>Claim C2\<close>

text \<open>
  C2: for every client message whose method is \<open>tools/call\<close> but whose params are absent
  or whose \<open>params.name\<close> is not a string, the proxy forwards the request to the child
  server unchanged, runs no stage of the security pipeline (kill switch, injection,
  egress, policy, chain) and sends no deny response to the client.  Whatever the options
  and the state, handling such a message is \<open>writeToServer(msg)\<close> after the count of the
  message: no stage is added to the stages run, nothing is written to the client, no event
  is emitted, nothing is logged, and the message itself is appended to what the child
  receives (\<open>writeToServer\<close> writes when the child's standard input is writable).
\<close>

theorem C2_malformed_tool_call_forwarded:
  assumes "malformedToolCall msg"
  shows "handleClientMessage opts clk msg s = writeToServer msg (counted s)
       \<and> stagesRun (handleClientMessage opts clk msg s) = stagesRun s
       \<and> toClient (handleClientMessage opts clk msg s) = toClient s
       \<and> emitted (handleClientMessage opts clk msg s) = emitted s
       \<and> logged (handleClientMessage opts clk msg s) = logged s
       \<and> engineBuckets (handleClientMessage opts clk msg s) = engineBuckets s
       \<and> chainHistory (handleClientMessage opts clk msg s) = chainHistory s
       \<and> toServer (handleClientMessage opts clk msg s)
           = (if childWritable s then toServer s @ [msg] else toServer s)"
proof -
  have "getToolCallParams msg = None"
    using assms by (simp add: getToolCallParams_None_iff)
  then have eq: "handleClientMessage opts clk msg s = writeToServer msg (counted s)"
    by (simp add: passThrough)
  show ?thesis
    unfolding eq by (simp add: writeToServer_def counted_def)
qed

theorem C2_malformed_tool_call_forwarded_witness:
  "malformedToolCall namelessCall
   \<and> toServer (handleClientMessage lockedDown noon namelessCall idleProxy) = [namelessCall]
   \<and> toClient (handleClientMessage lockedDown noon namelessCall idleProxy) = []
   \<and> stagesRun (handleClientMessage lockedDown noon namelessCall idleProxy) = []"
  using C2_malformed_tool_call_forwarded [of namelessCall lockedDown noon idleProxy]
  by (simp add: malformedToolCall_def namelessCall_def hasStringName_def idleProxy_def
        writeToServer_def counted_def)

subsection \<open>Claim C10\<close>

text \<open>
  C10: processing a client message that is not a \<open>tools/call\<close> request forwards the message
  to the child unchanged and leaves every proxy statistic unchanged, \<open>total\<close> being
  incremented only for \<open>tools/call\<close> requests.  The message is forwarded unchanged, and
  six of the seven statistics are unchanged; but \<open>this.stats.total++\<close> is the first
  statement of \<open>handleClientMessage\<close>, before the test \<open>isToolCall(msg)\<close>, so \<open>total\<close>
  grows by one for every client message, requests such as \<open>tools/list\<close> and
  notifications included.
\<close>

theorem C10_total_counts_every_client_message:
  assumes "\<not> isToolCall msg"
  shows "toServer (handleClientMessage opts clk msg s)
           = (if childWritable s then toServer s @ [msg] else toServer s)
       \<and> stats (handleClientMessage opts clk msg s)
           = (stats s)\<lparr>total := total (stats s) + 1\<rparr>
       \<and> total (stats (handleClientMessage opts clk msg s)) \<noteq> total (stats s)"
proof -
  have eq: "handleClientMessage opts clk msg s = writeToServer msg (counted s)"
    using assms by (simp add: passThrough)
  show ?thesis
    unfolding eq by (simp add: writeToServer_def counted_def)
qed

theorem C10_total_counts_every_client_message_witness:
  "\<not> isToolCall listTools
   \<and> toServer (handleClientMessage lockedDown noon listTools idleProxy) = [listTools]
   \<and> total (stats idleProxy) = 0
   \<and> total (stats (handleClientMessage lockedDown noon listTools idleProxy)) = 1"
  using C10_total_counts_every_client_message [of listTools lockedDown noon idleProxy]
  by (simp add: isToolCall_def isRequest_def listTools_def idleProxy_def)

end
